theory Spec2Isabelle
  imports Complex_Main
begin

section \<open>JavaScript values\<close>

text \<open>
  The order helpers of \<^verbatim>\<open>orderTransform\<close> read a document fetched from the
  store and compute on it with the untyped operators of JavaScript. The embedding keeps
  that: a document is a value of \<open>jsval\<close>, and every operator of the source is a
  function on \<open>jsval\<close> with the coercions of the language written out.

  Numbers. A JavaScript number is an IEEE double. Here it is an exact rational, or NaN:
  the rounding error of binary floating point, overflow to the infinities and the
  negative zero are not represented. An absent field reads as \<open>Undefined\<close>, and
  \<open>undefined * 5\<close> is NaN, which the helpers do meet, so NaN is kept. Two doubles
  that should be equal can differ in the last bit (\<open>0.1 + 0.2\<close> is not \<open>0.3\<close>),
  which a text with two decimals does not show: the results of the accessors are stated
  on the texts they return.
\<close>

datatype num = Fin rat | NaN

fun num_add :: "num \<Rightarrow> num \<Rightarrow> num" where
  "num_add (Fin a) (Fin b) = Fin (a + b)"
| "num_add _ _ = NaN"

fun num_sub :: "num \<Rightarrow> num \<Rightarrow> num" where
  "num_sub (Fin a) (Fin b) = Fin (a - b)"
| "num_sub _ _ = NaN"

fun num_mul :: "num \<Rightarrow> num \<Rightarrow> num" where
  "num_mul (Fin a) (Fin b) = Fin (a * b)"
| "num_mul _ _ = NaN"

text \<open>\<^verbatim>\<open>Math.max(a, b)\<close>: NaN as soon as one argument is NaN.\<close>

fun Math_max :: "num \<Rightarrow> num \<Rightarrow> num" where
  "Math_max (Fin a) (Fin b) = Fin (max a b)"
| "Math_max _ _ = NaN"

text \<open>
  Values. Objects are association lists of their own properties in insertion order.
  A document is read with the field names that the code writes out (\<^verbatim>\<open>shopId\<close>,
  \<^verbatim>\<open>quantity\<close>, \<^verbatim>\<open>invoice\<close>, ...), none of which is a member of
  \<^verbatim>\<open>Object.prototype\<close>: reading a document sees its own properties only, a field
  name being taken not to be \<^verbatim>\<open>toString\<close>, \<^verbatim>\<open>constructor\<close>,
  \<^verbatim>\<open>__proto__\<close> or another inherited name. The objects that the code builds are
  indexed by shop ids, which are data: what those objects inherit is part of the model
  (see the breakdowns by shop). Functions, symbols and getters do not occur in a stored
  document.
\<close>

datatype jsval =
    Undefined
  | Null
  | Bool bool
  | Num num
  | Str string
  | Obj "(string \<times> jsval) list"
  | Arr "jsval list"

datatype error = TypeError

definition bind_err :: "error + 'a \<Rightarrow> ('a \<Rightarrow> error + 'b) \<Rightarrow> error + 'b" where
  "bind_err x f = (case x of Inl e \<Rightarrow> Inl e | Inr v \<Rightarrow> f v)"

text \<open>
  What the code takes from its environment and is not part of this repository: the
  conversions between numbers and strings of the language (\<^verbatim>\<open>String(1.5)\<close>,
  \<^verbatim>\<open>Number("1.5")\<close>), which only matter when a field that should hold a number
  holds a string, an object or an array, and the shop collection
  (\<^verbatim>\<open>Shops.findOne(id)\<close>, \<open>Undefined\<close> when there is no such shop). They are
  parameters of every definition that needs them.
\<close>

record host =
  NumberToString :: "rat \<Rightarrow> string"
  StringToNumber :: "string \<Rightarrow> num"
  Shops_findOne :: "string \<Rightarrow> jsval"

fun join_comma :: "string list \<Rightarrow> string" where
  "join_comma [] = []"
| "join_comma [s] = s"
| "join_comma (s # t # ss) = s @ '','' @ join_comma (t # ss)"

text \<open>
  \<^verbatim>\<open>ToString\<close>, also used for property keys (\<^verbatim>\<open>obj[v]\<close>). An array is
  joined with commas, \<^verbatim>\<open>null\<close> and \<^verbatim>\<open>undefined\<close> elements giving the empty string.
\<close>

fun ToString :: "host \<Rightarrow> jsval \<Rightarrow> string" where
  "ToString h Undefined = ''undefined''"
| "ToString h Null = ''null''"
| "ToString h (Bool b) = (if b then ''true'' else ''false'')"
| "ToString h (Num NaN) = ''NaN''"
| "ToString h (Num (Fin r)) = NumberToString h r"
| "ToString h (Str s) = s"
| "ToString h (Obj kvs) = ''[object Object]''"
| "ToString h (Arr xs) =
     join_comma (map (\<lambda>x. if x = Undefined \<or> x = Null then [] else ToString h x) xs)"

fun ToNumber :: "host \<Rightarrow> jsval \<Rightarrow> num" where
  "ToNumber h Undefined = NaN"
| "ToNumber h Null = Fin 0"
| "ToNumber h (Bool b) = Fin (if b then 1 else 0)"
| "ToNumber h (Num n) = n"
| "ToNumber h (Str s) = StringToNumber h s"
| "ToNumber h (Obj kvs) = StringToNumber h (ToString h (Obj kvs))"
| "ToNumber h (Arr xs) = StringToNumber h (ToString h (Arr xs))"

text \<open>
  \<^verbatim>\<open>a + b\<close> concatenates as soon as one operand is a string after
  \<^verbatim>\<open>ToPrimitive\<close>, which strings, objects and arrays are; otherwise it adds numbers.
  \<^verbatim>\<open>a * b\<close> always multiplies numbers.
\<close>

fun is_stringy :: "jsval \<Rightarrow> bool" where
  "is_stringy (Str s) = True"
| "is_stringy (Obj kvs) = True"
| "is_stringy (Arr xs) = True"
| "is_stringy _ = False"

definition js_add :: "host \<Rightarrow> jsval \<Rightarrow> jsval \<Rightarrow> jsval" where
  "js_add h a b =
     (if is_stringy a \<or> is_stringy b then Str (ToString h a @ ToString h b)
      else Num (num_add (ToNumber h a) (ToNumber h b)))"

definition js_mul :: "host \<Rightarrow> jsval \<Rightarrow> jsval \<Rightarrow> jsval" where
  "js_mul h a b = Num (num_mul (ToNumber h a) (ToNumber h b))"

fun truthy :: "jsval \<Rightarrow> bool" where
  "truthy Undefined = False"
| "truthy Null = False"
| "truthy (Bool b) = b"
| "truthy (Num NaN) = False"
| "truthy (Num (Fin r)) = (r \<noteq> 0)"
| "truthy (Str s) = (s \<noteq> [])"
| "truthy (Obj kvs) = True"
| "truthy (Arr xs) = True"

text \<open>\<^verbatim>\<open>a || b\<close>\<close>

definition js_or :: "jsval \<Rightarrow> jsval \<Rightarrow> jsval" where
  "js_or a b = (if truthy a then a else b)"

text \<open>
  \<^verbatim>\<open>a === b\<close>. NaN is not equal to itself. Two objects are equal when they are the
  same reference, which a value does not carry: they are compared by content here, and
  this is exact on the strings, numbers and absent values a \<^verbatim>\<open>shopId\<close> holds.
  The proofs below use the comparison on strings, on numbers and on \<^verbatim>\<open>undefined\<close>
  only.
\<close>

definition strict_eq :: "jsval \<Rightarrow> jsval \<Rightarrow> bool" where
  "strict_eq a b = (a = b \<and> a \<noteq> Num NaN)"

subsection \<open>Property access\<close>

definition is_digit :: "char \<Rightarrow> bool" where
  "is_digit c = (48 \<le> (of_char c :: nat) \<and> (of_char c :: nat) \<le> 57)"

definition digit_val :: "char \<Rightarrow> nat" where
  "digit_val c = of_char c - 48"

definition nat_of_digits :: "string \<Rightarrow> nat" where
  "nat_of_digits ds = foldl (\<lambda>n c. 10 * n + digit_val c) 0 ds"

text \<open>
  An array index is a key that is the canonical decimal form of a number below
  \<open>2^32 - 1 = 4294967295\<close>: \<^verbatim>\<open>"0"\<close>, \<^verbatim>\<open>"17"\<close>, not \<^verbatim>\<open>"017"\<close>.
\<close>

definition array_index :: "string \<Rightarrow> nat option" where
  "array_index k =
     (if k \<noteq> [] \<and> list_all is_digit k \<and> (k = ''0'' \<or> hd k \<noteq> CHR ''0'')
         \<and> int (nat_of_digits k) < 4294967295
      then Some (nat_of_digits k) else None)"

text \<open>
  \<^verbatim>\<open>v[k]\<close> for a string key. Reading a property of \<^verbatim>\<open>undefined\<close> or
  \<^verbatim>\<open>null\<close> throws a TypeError; a property that is not there reads as
  \<^verbatim>\<open>undefined\<close>. Arrays and strings have \<^verbatim>\<open>length\<close> and their indices
  (a string is its list of bytes here, UTF-16 units in the language).
\<close>

fun js_get :: "jsval \<Rightarrow> string \<Rightarrow> error + jsval" where
  "js_get Undefined k = Inl TypeError"
| "js_get Null k = Inl TypeError"
| "js_get (Bool b) k = Inr Undefined"
| "js_get (Num n) k = Inr Undefined"
| "js_get (Str s) k =
     Inr (if k = ''length'' then Num (Fin (of_nat (length s)))
          else case array_index k of
                 Some i \<Rightarrow> if i < length s then Str [s ! i] else Undefined
               | None \<Rightarrow> Undefined)"
| "js_get (Obj kvs) k = Inr (case map_of kvs k of Some v \<Rightarrow> v | None \<Rightarrow> Undefined)"
| "js_get (Arr xs) k =
     Inr (if k = ''length'' then Num (Fin (of_nat (length xs)))
          else case array_index k of
                 Some i \<Rightarrow> if i < length xs then xs ! i else Undefined
               | None \<Rightarrow> Undefined)"

section \<open>getSummary\<close>

text \<open>
  \<^verbatim>\<open>array.reduce(f, init)\<close> with a callback that may throw: the first exception
  leaves the loop.
\<close>

fun reduce_err :: "('b \<Rightarrow> 'a \<Rightarrow> error + 'b) \<Rightarrow> 'b \<Rightarrow> 'a list \<Rightarrow> error + 'b" where
  "reduce_err f acc [] = Inr acc"
| "reduce_err f acc (x # xs) =
     (case f acc x of Inl e \<Rightarrow> Inl e | Inr acc' \<Rightarrow> reduce_err f acc' xs)"

text \<open>
  \<^verbatim>\<open>prop[i]\<close> used as a property key: past the end of the path it is
  \<^verbatim>\<open>undefined\<close>, the key \<^verbatim>\<open>"undefined"\<close>.
\<close>

definition path_key :: "string list \<Rightarrow> nat \<Rightarrow> string" where
  "path_key p i = (if i < length p then p ! i else ''undefined'')"

text \<open>
  \<^verbatim>\<open>prop.length === 1 ? item[prop[0]] : item[prop[0]][prop[1]]\<close>
\<close>

definition resolve :: "jsval \<Rightarrow> string list \<Rightarrow> error + jsval" where
  "resolve item p =
     (if length p = 1 then js_get item (path_key p 0)
      else bind_err (js_get item (path_key p 0)) (\<lambda>v. js_get v (path_key p 1)))"

text \<open>
  \<^verbatim>\<open>sum + item[prop[0]] * (prop2.length === 1 ? item[prop2[0]] : item[prop2[0]][prop2[1]])\<close>
\<close>

definition add_product :: "host \<Rightarrow> string list \<Rightarrow> string list \<Rightarrow> jsval \<Rightarrow> jsval \<Rightarrow> error + jsval" where
  "add_product h prop prop2 acc item =
     bind_err (js_get item (path_key prop 0)) (\<lambda>a.
     bind_err (resolve item prop2) (\<lambda>b.
     Inr (js_add h acc (js_mul h a b))))"

text \<open>
  The callback of the \<^verbatim>\<open>reduce\<close> in \<^verbatim>\<open>getSummary\<close>; \<open>acc\<close> is its \<^verbatim>\<open>sum\<close>. \<open>prop2\<close> is
  \<open>None\<close> when the argument is not passed; an array, also an empty one, is truthy.
  \<open>shopId\<close> is \<open>Undefined\<close> when the argument is not passed.
\<close>

definition getSummary_step ::
  "host \<Rightarrow> string list \<Rightarrow> string list option \<Rightarrow> jsval \<Rightarrow> jsval \<Rightarrow> jsval \<Rightarrow> error + jsval" where
  "getSummary_step h prop prop2 shopId acc item =
     (case prop2 of
        Some p2 \<Rightarrow>
          if truthy shopId then
            bind_err (js_get item ''shopId'') (\<lambda>sid.
              if strict_eq shopId sid then add_product h prop p2 acc item
              else Inr acc)
          else add_product h prop p2 acc item
      | None \<Rightarrow> bind_err (resolve item prop) (\<lambda>b. Inr (js_add h acc b)))"

text \<open>
  The body of the \<^verbatim>\<open>try\<close> block: \<open>Inr (Some v)\<close> when it returns \<open>v\<close>,
  \<open>Inr None\<close> when it falls through (\<open>items\<close> is not an array), \<open>Inl e\<close> when it
  throws.
\<close>

definition getSummary_body ::
  "host \<Rightarrow> jsval \<Rightarrow> string list \<Rightarrow> string list option \<Rightarrow> jsval \<Rightarrow> error + jsval option" where
  "getSummary_body h items prop prop2 shopId =
     (case items of
        Arr xs \<Rightarrow> bind_err (reduce_err (getSummary_step h prop prop2 shopId) (Num (Fin 0)) xs)
                    (\<lambda>v. Inr (Some v))
      | _ \<Rightarrow> Inr None)"

definition getSummary ::
  "host \<Rightarrow> jsval \<Rightarrow> string list \<Rightarrow> string list option \<Rightarrow> jsval \<Rightarrow> jsval" where
  "getSummary h items prop prop2 shopId =
     (case getSummary_body h items prop prop2 shopId of
        Inl e \<Rightarrow> Num (Fin 0)
      | Inr (Some v) \<Rightarrow> v
      | Inr None \<Rightarrow> Num (Fin 0))"

section \<open>Formatting and parsing amounts\<close>

definition digit_char :: "nat \<Rightarrow> char" where
  "digit_char d = char_of (48 + d)"

fun dec_digits :: "nat \<Rightarrow> string" where
  "dec_digits n =
     (if n < 10 then [digit_char n] else dec_digits (n div 10) @ [digit_char (n mod 10)])"

declare dec_digits.simps [simp del]

text \<open>\<^verbatim>\<open>Math.round\<close>: the nearest integer, a half going up.\<close>

definition Math_round :: "rat \<Rightarrow> int" where
  "Math_round y = \<lfloor>y + 1 / 2\<rfloor>"

text \<open>
  The text of \<open>k\<close> hundredths with two decimals, as \<^verbatim>\<open>Number.prototype.toFixed(2)\<close>
  writes the number \<open>k / 100\<close>: a minus sign for a negative number, the integer part,
  a point, two digits.
\<close>

definition unsigned2 :: "nat \<Rightarrow> string" where
  "unsigned2 m =
     dec_digits (m div 100) @ ''.'' @ [digit_char (m mod 100 div 10), digit_char (m mod 10)]"

definition fixed2 :: "int \<Rightarrow> string" where
  "fixed2 k = (if k < 0 then ''-'' else []) @ unsigned2 (nat \<bar>k\<bar>)"

text \<open>
  Modelled from the spec: \<^verbatim>\<open>accounting.toFixed(value, 2)\<close> belongs to the package
  \<^verbatim>\<open>accounting-js\<close>, which is not among the sources. The specification describes it
  as rounding to 2 decimal places with standard half-up fixed-point formatting, which is
  \<^verbatim>\<open>(Math.round(value * 100) / 100).toFixed(2)\<close>: the multiplication reads the
  argument as a number, and \<^verbatim>\<open>toFixed\<close> of NaN is the text \<^verbatim>\<open>NaN\<close>. Exponent
  notation, which \<^verbatim>\<open>toFixed\<close> switches to from \<open>10^21\<close> on, is not represented.
\<close>

fun toFixed2 :: "num \<Rightarrow> string" where
  "toFixed2 NaN = ''NaN''"
| "toFixed2 (Fin x) = fixed2 (Math_round (x * 100))"

definition accounting_toFixed :: "host \<Rightarrow> jsval \<Rightarrow> string" where
  "accounting_toFixed h v = toFixed2 (ToNumber h v)"

text \<open>
  \<^verbatim>\<open>parseFloat\<close>: leading white space is skipped, then the longest prefix that is a
  decimal literal is read (sign, digits, fraction, exponent); a text with no such prefix
  gives NaN. The literal \<^verbatim>\<open>Infinity\<close> is not represented and gives NaN here.
\<close>

definition is_space :: "char \<Rightarrow> bool" where
  "is_space c = (c \<in> set [CHR '' '', CHR 0x09, CHR 0x0A, CHR 0x0B, CHR 0x0C, CHR 0x0D])"

definition is_sign :: "char \<Rightarrow> bool" where
  "is_sign c = (c = CHR ''-'' \<or> c = CHR ''+'')"

definition exponent_part :: "string \<Rightarrow> int" where
  "exponent_part w =
     (case w of
        [] \<Rightarrow> 0
      | c # r \<Rightarrow>
          if c = CHR ''e'' \<or> c = CHR ''E'' then
            (let neg = (r \<noteq> [] \<and> hd r = CHR ''-'');
                 r' = (if r \<noteq> [] \<and> is_sign (hd r) then tl r else r);
                 ds = takeWhile is_digit r'
             in if ds = [] then 0
                else if neg then - int (nat_of_digits ds) else int (nat_of_digits ds))
          else 0)"

definition scale10 :: "rat \<Rightarrow> int \<Rightarrow> rat" where
  "scale10 x e = (if 0 \<le> e then x * 10 ^ nat e else x / 10 ^ nat (- e))"

definition parseFloat :: "string \<Rightarrow> num" where
  "parseFloat s =
     (let t = dropWhile is_space s;
          neg = (t \<noteq> [] \<and> hd t = CHR ''-'');
          u = (if t \<noteq> [] \<and> is_sign (hd t) then tl t else t);
          ip = takeWhile is_digit u;
          v = dropWhile is_digit u;
          dot = (v \<noteq> [] \<and> hd v = CHR ''.'');
          fp = (if dot then takeWhile is_digit (tl v) else []);
          w = (if dot then dropWhile is_digit (tl v) else v);
          m = of_nat (nat_of_digits ip) + of_nat (nat_of_digits fp) / 10 ^ length fp
      in if ip = [] \<and> fp = [] then NaN
         else Fin (scale10 (if neg then - m else m) (exponent_part w)))"

section \<open>The order and its accessors\<close>

text \<open>
  \<^verbatim>\<open>this\<close> in the methods of \<^verbatim>\<open>orderTransform\<close>: the fields of the order
  document that the methods read, \<open>Undefined\<close> where the document has no such field.
\<close>

record order =
  items :: jsval
  shipping :: jsval
  billing :: jsval
  tax :: jsval
  discount :: jsval

definition orderCount :: "host \<Rightarrow> order \<Rightarrow> jsval" where
  "orderCount h ord = getSummary h (items ord) [''quantity''] None Undefined"

definition orderShipping :: "host \<Rightarrow> order \<Rightarrow> string" where
  "orderShipping h ord =
     (let rate = getSummary h (shipping ord) [''shipmentMethod'', ''rate''] None Undefined;
          handling = getSummary h (shipping ord) [''shipmentMethod'', ''handling''] None Undefined;
          shipping' = js_or (js_add h handling rate) (Num (Fin 0))
      in accounting_toFixed h shipping')"

definition orderSubTotal :: "host \<Rightarrow> order \<Rightarrow> string" where
  "orderSubTotal h ord =
     (let subTotal = getSummary h (items ord) [''quantity''] (Some [''variants'', ''price''])
                       Undefined
      in accounting_toFixed h subTotal)"

definition orderTaxes :: "host \<Rightarrow> order \<Rightarrow> string" where
  "orderTaxes h ord =
     (let tax' = js_or (tax ord) (Num (Fin 0));
          subTotal = parseFloat (orderSubTotal h ord);
          taxTotal = js_mul h (Num subTotal) tax'
      in accounting_toFixed h taxTotal)"

definition orderDiscounts :: "host \<Rightarrow> order \<Rightarrow> string" where
  "orderDiscounts h ord =
     (let discount' = js_or (discount ord) (Num (Fin 0))
      in accounting_toFixed h discount')"

definition orderTotal :: "host \<Rightarrow> order \<Rightarrow> string" where
  "orderTotal h ord =
     (let subTotal = parseFloat (orderSubTotal h ord);
          shipping' = parseFloat (orderShipping h ord);
          taxes = parseFloat (orderTaxes h ord);
          discount' = parseFloat (orderDiscounts h ord);
          discountTotal = Math_max (Fin 0) (num_sub subTotal discount');
          total = num_add (num_add discountTotal shipping') taxes
      in accounting_toFixed h (Num total))"

subsection \<open>Breakdowns by shop\<close>

text \<open>
  The objects that the code builds start as \<^verbatim>\<open>{}\<close> and are indexed by shop ids,
  which can be any string. Such an object has its own properties and, through its
  prototype, the members of \<^verbatim>\<open>Object.prototype\<close>, whose names are these. All of them
  are functions, but \<^verbatim>\<open>__proto__\<close>, which is an accessor: read, it gives the prototype;
  assigned to, it replaces the prototype and creates no property.
\<close>

definition Object_prototype :: "string list" where
  "Object_prototype =
     [''constructor'', ''__defineGetter__'', ''__defineSetter__'', ''hasOwnProperty'',
      ''__lookupGetter__'', ''__lookupSetter__'', ''isPrototypeOf'', ''propertyIsEnumerable'',
      ''toString'', ''valueOf'', ''__proto__'', ''toLocaleString'']"

definition inherited :: "string \<Rightarrow> bool" where
  "inherited k = (k \<in> set Object_prototype)"

text \<open>
  \<^verbatim>\<open>obj[k]\<close> on an object \<^verbatim>\<open>{}\<close> with the own properties \<open>kvs\<close>: an own
  property, else a member inherited from \<^verbatim>\<open>Object.prototype\<close>, else nothing. An
  inherited member is a function or the prototype itself, hence truthy.
\<close>

datatype property = Own jsval | Inherited string | Absent

definition obj_find :: "(string \<times> jsval) list \<Rightarrow> string \<Rightarrow> property" where
  "obj_find kvs k =
     (case map_of kvs k of
        Some v \<Rightarrow> Own v
      | None \<Rightarrow> if inherited k then Inherited k else Absent)"

fun truthy_property :: "property \<Rightarrow> bool" where
  "truthy_property (Own v) = truthy v"
| "truthy_property (Inherited n) = True"
| "truthy_property Absent = False"

text \<open>
  The value of the own property \<open>k\<close>, \<^verbatim>\<open>undefined\<close> when there is none: what
  \<^verbatim>\<open>obj[k]\<close> is for a key \<open>k\<close> that is not the name of an inherited member.
\<close>

definition obj_lookup :: "(string \<times> jsval) list \<Rightarrow> string \<Rightarrow> jsval" where
  "obj_lookup kvs k = (case map_of kvs k of Some v \<Rightarrow> v | None \<Rightarrow> Undefined)"

text \<open>Creating or replacing the own property \<open>k\<close>.\<close>

fun obj_set :: "(string \<times> jsval) list \<Rightarrow> string \<Rightarrow> jsval \<Rightarrow> (string \<times> jsval) list" where
  "obj_set [] k v = [(k, v)]"
| "obj_set ((k', v') # kvs) k v =
     (if k' = k then (k, v) # kvs else (k', v') # obj_set kvs k v)"

text \<open>
  \<^verbatim>\<open>billingObject\<close>: its own properties and its prototype, \<open>None\<close> for
  \<^verbatim>\<open>Object.prototype\<close>, \<open>Some v\<close> once an assignment to \<^verbatim>\<open>__proto__\<close> has put
  \<open>v\<close> in its place (an object or an array of the document, or \<^verbatim>\<open>null\<close>).
\<close>

record billingObject =
  own :: "(string \<times> jsval) list"
  proto :: "jsval option"

definition empty_object :: billingObject where
  "empty_object = \<lparr>own = [], proto = None\<rparr>"

text \<open>
  Whether an assignment to \<^verbatim>\<open>__proto__\<close> still reaches the accessor of
  \<^verbatim>\<open>Object.prototype\<close>: not when the prototype is \<^verbatim>\<open>null\<close>, and not when it is
  a document object with an own property of that name, which hides the accessor.
\<close>

definition setter_reachable :: "jsval option \<Rightarrow> bool" where
  "setter_reachable p =
     (case p of
        None \<Rightarrow> True
      | Some (Obj d) \<Rightarrow> map_of d ''__proto__'' = None
      | Some (Arr xs) \<Rightarrow> True
      | Some _ \<Rightarrow> False)"

text \<open>
  \<^verbatim>\<open>billingObject[k] = v\<close>. An own property is replaced. Otherwise the key
  \<^verbatim>\<open>__proto__\<close> goes to the accessor when it is reachable: an object, an array or
  \<^verbatim>\<open>null\<close> becomes the prototype, any other value is dropped, and no property is
  created. Every other assignment creates an own property.
\<close>

definition assign :: "billingObject \<Rightarrow> string \<Rightarrow> jsval \<Rightarrow> billingObject" where
  "assign b k v =
     (if map_of (own b) k \<noteq> None then b\<lparr>own := obj_set (own b) k v\<rparr>
      else if k = ''__proto__'' \<and> setter_reachable (proto b) then
        (case v of
           Obj d \<Rightarrow> b\<lparr>proto := Some v\<rparr>
         | Arr xs \<Rightarrow> b\<lparr>proto := Some v\<rparr>
         | Null \<Rightarrow> b\<lparr>proto := Some Null\<rparr>
         | _ \<Rightarrow> b)
      else b\<lparr>own := obj_set (own b) k v\<rparr>)"

text \<open>
  \<^verbatim>\<open>billingObject[k]\<close> for a key \<open>k\<close> that is not the name of a member of a
  built-in prototype: an own property, else what the prototype that was put in place
  holds under \<open>k\<close>, else \<^verbatim>\<open>undefined\<close>.
\<close>

definition billing_get :: "billingObject \<Rightarrow> string \<Rightarrow> jsval" where
  "billing_get b k =
     (case map_of (own b) k of
        Some v \<Rightarrow> v
      | None \<Rightarrow>
          (case proto b of
             None \<Rightarrow> Undefined
           | Some p \<Rightarrow> (case js_get p k of Inr v \<Rightarrow> v | Inl e \<Rightarrow> Undefined)))"

text \<open>
  The receiver of an array method (\<^verbatim>\<open>v.reduce(...)\<close>): the method is there on an
  array only, and calling it on anything else throws.
\<close>

definition elements :: "jsval \<Rightarrow> error + jsval list" where
  "elements v = (case v of Arr xs \<Rightarrow> Inr xs | _ \<Rightarrow> Inl TypeError)"

text \<open>
  \<^verbatim>\<open>for (const x of v)\<close>: an array gives its elements, a string its characters,
  anything else that a document holds is not iterable.
\<close>

definition iterate :: "jsval \<Rightarrow> error + jsval list" where
  "iterate v =
     (case v of
        Arr xs \<Rightarrow> Inr xs
      | Str s \<Rightarrow> Inr (map (\<lambda>c. Str [c]) s)
      | _ \<Rightarrow> Inl TypeError)"

text \<open>
  \<^verbatim>\<open>billingObject[billingItem.shopId] = billingItem.invoice.shipping\<close>
\<close>

definition shippingByShop_step ::
  "host \<Rightarrow> billingObject \<Rightarrow> jsval \<Rightarrow> error + billingObject" where
  "shippingByShop_step h billingObject billingItem =
     bind_err (js_get billingItem ''shopId'') (\<lambda>sid.
     bind_err (js_get billingItem ''invoice'') (\<lambda>inv.
     bind_err (js_get inv ''shipping'') (\<lambda>v.
     Inr (assign billingObject (ToString h sid) v))))"

definition orderShippingByShop :: "host \<Rightarrow> order \<Rightarrow> error + billingObject" where
  "orderShippingByShop h ord =
     bind_err (iterate (billing ord)) (reduce_err (shippingByShop_step h) empty_object)"

text \<open>
  \<^verbatim>\<open>billingObject[billingItem.shopId] = accounting.toFixed(billingItem.invoice.taxes, 2)\<close>
\<close>

definition taxesByShop_step ::
  "host \<Rightarrow> billingObject \<Rightarrow> jsval \<Rightarrow> error + billingObject" where
  "taxesByShop_step h billingObject billingItem =
     bind_err (js_get billingItem ''shopId'') (\<lambda>sid.
     bind_err (js_get billingItem ''invoice'') (\<lambda>inv.
     bind_err (js_get inv ''taxes'') (\<lambda>v.
     Inr (assign billingObject (ToString h sid) (Str (accounting_toFixed h v))))))"

definition orderTaxesByShop :: "host \<Rightarrow> order \<Rightarrow> error + billingObject" where
  "orderTaxesByShop h ord =
     bind_err (iterate (billing ord)) (reduce_err (taxesByShop_step h) empty_object)"

text \<open>
  The callback of the \<^verbatim>\<open>reduce\<close> in \<^verbatim>\<open>orderSubTotalByShop\<close>; \<open>its\<close> is
  \<^verbatim>\<open>this.items\<close>, summed again in full for each shop met for the first time. The
  test \<^verbatim>\<open>!uniqueShopSubTotals[item.shopId]\<close> fails on the name of an inherited member
  as it does on a shop already met, so the assignment is only reached with a key that
  has an own property or is no inherited name, and it creates or replaces an own
  property; the prototype of the object is never replaced.
\<close>

definition subTotalByShop_step ::
  "host \<Rightarrow> jsval \<Rightarrow> (string \<times> jsval) list \<Rightarrow> jsval \<Rightarrow> error + (string \<times> jsval) list" where
  "subTotalByShop_step h its uniqueShopSubTotals item =
     bind_err (js_get item ''shopId'') (\<lambda>sid.
       if \<not> truthy_property (obj_find uniqueShopSubTotals (ToString h sid)) then
         (let subTotal = getSummary h its [''quantity''] (Some [''variants'', ''price'']) sid
          in Inr (obj_set uniqueShopSubTotals (ToString h sid)
                    (Str (accounting_toFixed h subTotal))))
       else Inr uniqueShopSubTotals)"

definition orderSubTotalByShop :: "host \<Rightarrow> order \<Rightarrow> error + (string \<times> jsval) list" where
  "orderSubTotalByShop h ord =
     bind_err (elements (items ord)) (reduce_err (subTotalByShop_step h (items ord)) [])"

subsection \<open>getShopSummary\<close>

text \<open>
  The callback of the \<^verbatim>\<open>reduce\<close> that groups the items by shop. When
  \<^verbatim>\<open>shopItems[item.shopId]\<close> is truthy, \<^verbatim>\<open>push\<close> is called on it: it is there
  on the array of a shop already met, and not on an inherited member, where the call
  throws.
\<close>

definition itemsByShop_step ::
  "host \<Rightarrow> (string \<times> jsval) list \<Rightarrow> jsval \<Rightarrow> error + (string \<times> jsval) list" where
  "itemsByShop_step h shopItems item =
     bind_err (js_get item ''shopId'') (\<lambda>sid.
       if \<not> truthy_property (obj_find shopItems (ToString h sid)) then
         Inr (obj_set shopItems (ToString h sid) (Arr [item]))
       else
         (case obj_find shopItems (ToString h sid) of
            Own (Arr xs) \<Rightarrow> Inr (obj_set shopItems (ToString h sid) (Arr (xs @ [item])))
          | _ \<Rightarrow> Inl TypeError))"

text \<open>
  \<^verbatim>\<open>Object.keys\<close>: the keys that are array indices first, in ascending numeric
  order, then the other keys in insertion order.
\<close>

definition Object_keys :: "(string \<times> jsval) list \<Rightarrow> string list" where
  "Object_keys kvs =
     (let ks = map fst kvs
      in sort_key nat_of_digits (filter (\<lambda>k. array_index k \<noteq> None) ks)
           @ filter (\<lambda>k. array_index k = None) ks)"

fun map_err :: "('a \<Rightarrow> error + 'b) \<Rightarrow> 'a list \<Rightarrow> error + 'b list" where
  "map_err f [] = Inr []"
| "map_err f (x # xs) =
     bind_err (f x) (\<lambda>y. bind_err (map_err f xs) (\<lambda>ys. Inr (y # ys)))"

text \<open>
  The callback of the \<^verbatim>\<open>map\<close> in \<^verbatim>\<open>getShopSummary\<close>: an object with the one key
  \<open>shop\<close>, holding the summary of that shop. \<open>shop\<close> is an own key of
  \<^verbatim>\<open>itemsByShop\<close>, which is never the name of an inherited member (such a shop id
  makes the grouping throw): the four objects are read at a key that finds an own
  property or, in a prototype put in place by the billing, a property of the document.
\<close>

definition shopObject ::
  "host \<Rightarrow> billingObject \<Rightarrow> (string \<times> jsval) list \<Rightarrow> billingObject
     \<Rightarrow> (string \<times> jsval) list \<Rightarrow> string \<Rightarrow> error + jsval" where
  "shopObject h taxesByShop subTotalsByShop shippingByShop itemsByShop shop =
     bind_err (js_get (Shops_findOne h shop) ''name'') (\<lambda>name.
     bind_err (elements (obj_lookup itemsByShop shop)) (\<lambda>shopItems.
     bind_err (reduce_err (\<lambda>qty item. bind_err (js_get item ''quantity'')
                                        (\<lambda>q. Inr (js_add h qty q)))
                 (Num (Fin 0)) shopItems) (\<lambda>quantityTotal.
     Inr (Obj [(shop, Obj [(''name'', name),
                           (''subTotal'', obj_lookup subTotalsByShop shop),
                           (''taxes'', billing_get taxesByShop shop),
                           (''items'', obj_lookup itemsByShop shop),
                           (''quantityTotal'', quantityTotal),
                           (''shipping'', billing_get shippingByShop shop)])]))))"

text \<open>
  Modelled from the spec: \<^verbatim>\<open>_.sortBy(collection, iteratee)\<close> belongs to the package
  \<^verbatim>\<open>lodash\<close>, which is not among the sources. The specification has the result
  sorted in ascending order of the key. As the package documents it, the sort computes
  the key of every element, compares keys with \<^verbatim>\<open>compareAscending\<close> and keeps the
  order of the input for equal keys. \<open>str_less\<close> and \<open>js_less\<close> are \<^verbatim>\<open><\<close> of the
  language on strings and on values.
\<close>

fun str_less :: "string \<Rightarrow> string \<Rightarrow> bool" where
  "str_less [] [] = False"
| "str_less [] (d # ds) = True"
| "str_less (c # cs) [] = False"
| "str_less (c # cs) (d # ds) =
     ((of_char c :: nat) < of_char d \<or> (c = d \<and> str_less cs ds))"

definition js_less :: "host \<Rightarrow> jsval \<Rightarrow> jsval \<Rightarrow> bool" where
  "js_less h a b =
     (if is_stringy a \<and> is_stringy b then str_less (ToString h a) (ToString h b)
      else case (ToNumber h a, ToNumber h b) of
             (Fin x, Fin y) \<Rightarrow> x < y
           | _ \<Rightarrow> False)"

text \<open>
  \<^verbatim>\<open>compareAscending(value, other)\<close>: ordinary values in ascending order, then
  \<^verbatim>\<open>null\<close>, then \<^verbatim>\<open>undefined\<close>, then NaN.
\<close>

definition compareAscending :: "host \<Rightarrow> jsval \<Rightarrow> jsval \<Rightarrow> int" where
  "compareAscending h v other =
     (if strict_eq v other then 0
      else
        (let valIsDefined = (v \<noteq> Undefined); valIsNull = (v = Null);
             valIsReflexive = (v \<noteq> Num NaN);
             othIsDefined = (other \<noteq> Undefined); othIsNull = (other = Null);
             othIsReflexive = (other \<noteq> Num NaN)
         in if (\<not> othIsNull \<and> js_less h other v)
               \<or> (valIsNull \<and> othIsDefined \<and> othIsReflexive)
               \<or> (\<not> valIsDefined \<and> othIsReflexive)
               \<or> \<not> valIsReflexive then 1
            else if (\<not> valIsNull \<and> js_less h v other)
               \<or> (othIsNull \<and> valIsDefined \<and> valIsReflexive)
               \<or> (\<not> othIsDefined \<and> valIsReflexive)
               \<or> \<not> othIsReflexive then - 1
            else 0))"

text \<open>
  The comparison of two entries (key, index in the input, element): by key, and by
  index when the keys compare equal.
\<close>

definition entry_le :: "host \<Rightarrow> jsval \<times> nat \<times> jsval \<Rightarrow> jsval \<times> nat \<times> jsval \<Rightarrow> bool" where
  "entry_le h a b =
     (let r = compareAscending h (fst a) (fst b)
      in if r \<noteq> 0 then r < 0 else fst (snd a) \<le> fst (snd b))"

fun insert_entry :: "host \<Rightarrow> jsval \<times> nat \<times> jsval \<Rightarrow> (jsval \<times> nat \<times> jsval) list
    \<Rightarrow> (jsval \<times> nat \<times> jsval) list" where
  "insert_entry h a [] = [a]"
| "insert_entry h a (b # bs) =
     (if entry_le h a b then a # b # bs else b # insert_entry h a bs)"

definition sortBy :: "host \<Rightarrow> jsval list \<Rightarrow> jsval list \<Rightarrow> jsval list" where
  "sortBy h keys xs =
     map (\<lambda>e. snd (snd e)) (foldr (insert_entry h) (zip keys (zip [0 ..< length xs] xs)) [])"

definition itemsByShop :: "host \<Rightarrow> order \<Rightarrow> error + (string \<times> jsval) list" where
  "itemsByShop h ord = bind_err (elements (items ord)) (reduce_err (itemsByShop_step h) [])"

text \<open>
  The iteratee of the sort is \<^verbatim>\<open>(shopObject) => shopObject.name\<close>: the property
  \<^verbatim>\<open>name\<close> of the object whose one key is the shop id.
\<close>

definition getShopSummary :: "host \<Rightarrow> order \<Rightarrow> error + jsval list" where
  "getShopSummary h ord =
     bind_err (orderTaxesByShop h ord) (\<lambda>taxesByShop.
     bind_err (orderSubTotalByShop h ord) (\<lambda>subTotalsByShop.
     bind_err (orderShippingByShop h ord) (\<lambda>shippingByShop.
     bind_err (itemsByShop h ord) (\<lambda>itemsByShop'.
     bind_err (map_err (shopObject h taxesByShop subTotalsByShop shippingByShop itemsByShop')
                 (Object_keys itemsByShop')) (\<lambda>shopObjects.
     bind_err (map_err (\<lambda>so. js_get so ''name'') shopObjects) (\<lambda>keys.
     Inr (sortBy h keys shopObjects)))))))"

section \<open>GridItemControls\<close>

text \<open>
  The props of the component: three functions of no argument and the product. What
  \<^verbatim>\<open>render\<close> returns is a tree of elements, \<^verbatim>\<open>null\<close>, or \<^verbatim>\<open>undefined\<close>
  (a method that ends without \<^verbatim>\<open>return\<close>).
\<close>

record product =
  product_id :: string
  isDeleted :: jsval

record props =
  checked :: "unit \<Rightarrow> jsval"
  hasChanges :: "unit \<Rightarrow> jsval"
  hasCreateProductPermission :: "unit \<Rightarrow> jsval"
  product :: product

datatype node =
    Element string "(string \<times> jsval) list" "node list"
  | NullNode
  | UndefinedNode

definition renderArchived :: "props \<Rightarrow> node" where
  "renderArchived p =
     (if truthy (isDeleted (product p)) then
        Element ''span'' [(''className'', Str ''badge badge-danger'')]
          [Element ''Translation''
             [(''defaultValue'', Str ''Archived''), (''i18nKey'', Str ''app.archived'')] []]
      else UndefinedNode)"

definition renderVisibilityButton :: "props \<Rightarrow> node" where
  "renderVisibilityButton p =
     (if truthy (hasChanges p ()) then
        Element ''div'' []
          [Element ''IconButton''
             [(''icon'', Str []), (''onIcon'', Str []), (''status'', Str ''info'')] []]
      else UndefinedNode)"

definition render :: "props \<Rightarrow> node" where
  "render p =
     (if truthy (hasCreateProductPermission p ()) then
        Element ''div'' [(''className'', Str ''product-grid-controls'')]
          [Element ''label''
             [(''className'', Str ''like-button hidden''),
              (''htmlFor'', Str (''select-product-'' @ product_id (product p)))]
             [Element ''input''
                [(''type'', Str ''checkbox''),
                 (''name'', Str ''selectProduct''),
                 (''value'', Str (product_id (product p))),
                 (''id'', Str (''select-product-'' @ product_id (product p))),
                 (''checked'', checked p ()),
                 (''readOnly'', Bool True)] []],
           renderArchived p,
           renderVisibilityButton p]
      else NullNode)"

section \<open>Notions used in the statements\<close>


text \<open>An optional minus sign, one digit or more, a point, two digits.\<close>

definition has_two_decimals :: "string \<Rightarrow> bool" where
  "has_two_decimals s =
     (let u = (if s \<noteq> [] \<and> hd s = CHR ''-'' then tl s else s);
          ip = takeWhile is_digit u;
          r = dropWhile is_digit u
      in ip \<noteq> [] \<and> length r = 3 \<and> hd r = CHR ''.'' \<and> is_digit (r ! 1) \<and> is_digit (r ! 2))"

definition round_half_up2 :: "rat \<Rightarrow> rat" where
  "round_half_up2 x = of_int \<lfloor>x * 100 + 1 / 2\<rfloor> / 100"

text \<open>
  The text \<open>s\<close> is the amount \<open>n\<close> to two decimals: it has exactly two decimal
  digits and reads as \<open>n\<close> rounded half-up to hundredths; for NaN it is the text
  \<^verbatim>\<open>NaN\<close>.
\<close>

definition formats :: "string \<Rightarrow> num \<Rightarrow> bool" where
  "formats s n =
     (case n of
        Fin x \<Rightarrow> has_two_decimals s \<and> parseFloat s = Fin (round_half_up2 x)
      | NaN \<Rightarrow> s = ''NaN'')"

text \<open>
  A well-formed line item, read as (shop, quantity, price): its \<^verbatim>\<open>shopId\<close> is a
  string, its \<^verbatim>\<open>quantity\<close> and \<^verbatim>\<open>variants.price\<close> are numbers.
\<close>

definition line :: "jsval \<Rightarrow> (string \<times> rat \<times> rat) option" where
  "line item =
     (case (js_get item ''shopId'', js_get item ''quantity'',
            bind_err (js_get item ''variants'') (\<lambda>v. js_get v ''price'')) of
        (Inr (Str sid), Inr (Num (Fin q)), Inr (Num (Fin p))) \<Rightarrow> Some (sid, q, p)
      | _ \<Rightarrow> None)"

definition line_shop :: "jsval \<Rightarrow> string" where
  "line_shop item = (case line item of Some (sid, q, p) \<Rightarrow> sid | None \<Rightarrow> [])"

definition line_amount :: "jsval \<Rightarrow> rat" where
  "line_amount item = (case line item of Some (sid, q, p) \<Rightarrow> q * p | None \<Rightarrow> 0)"

text \<open>The sum of quantity times price over all the items of one shop.\<close>

definition shop_subtotal :: "jsval list \<Rightarrow> string \<Rightarrow> rat" where
  "shop_subtotal xs sid = sum_list (map line_amount (filter (\<lambda>x. line_shop x = sid) xs))"

text \<open>
  The key a billing entry is stored under, and a field of its invoice
  (\<open>Undefined\<close> where reading it would throw).
\<close>

definition billing_key :: "host \<Rightarrow> jsval \<Rightarrow> string" where
  "billing_key h b = (case js_get b ''shopId'' of Inr sid \<Rightarrow> ToString h sid | Inl e \<Rightarrow> [])"

definition invoice_field :: "jsval \<Rightarrow> string \<Rightarrow> jsval" where
  "invoice_field b f =
     (case bind_err (js_get b ''invoice'') (\<lambda>inv. js_get inv f) of
        Inr v \<Rightarrow> v
      | Inl e \<Rightarrow> Undefined)"

text \<open>The \<^verbatim>\<open>quantity\<close> of an item, when it is a number.\<close>

definition quantity_of :: "jsval \<Rightarrow> rat option" where
  "quantity_of item =
     (case js_get item ''quantity'' of Inr (Num (Fin q)) \<Rightarrow> Some q | _ \<Rightarrow> None)"

definition quantity_or_zero :: "jsval \<Rightarrow> rat" where
  "quantity_or_zero item = (case quantity_of item of Some q \<Rightarrow> q | None \<Rightarrow> 0)"

text \<open>The one key of an element of the list that \<^verbatim>\<open>getShopSummary\<close> returns.\<close>

definition shop_of :: "jsval \<Rightarrow> string" where
  "shop_of so = (case so of Obj kvs \<Rightarrow> (case kvs of [] \<Rightarrow> [] | kv # r \<Rightarrow> fst kv) | _ \<Rightarrow> [])"

text \<open>
  A billing entry that can be read: neither the entry nor its \<^verbatim>\<open>invoice\<close> is
  \<^verbatim>\<open>undefined\<close> or \<^verbatim>\<open>null\<close>.
\<close>

definition has_invoice :: "jsval \<Rightarrow> bool" where
  "has_invoice b =
     (case js_get b ''invoice'' of
        Inr i \<Rightarrow> i \<noteq> Undefined \<and> i \<noteq> Null
      | Inl e \<Rightarrow> False)"

text \<open>
  The total computed from the sums before any rounding: the formula of
  \<^verbatim>\<open>orderTotal\<close> on the amounts that the accessors round.
\<close>

definition unrounded_total :: "host \<Rightarrow> order \<Rightarrow> num" where
  "unrounded_total h ord =
     (let subTotal = ToNumber h (getSummary h (items ord) [''quantity'']
                                   (Some [''variants'', ''price'']) Undefined);
          rate = getSummary h (shipping ord) [''shipmentMethod'', ''rate''] None Undefined;
          handling = getSummary h (shipping ord) [''shipmentMethod'', ''handling''] None Undefined;
          shipping' = ToNumber h (js_or (js_add h handling rate) (Num (Fin 0)));
          taxes = num_mul subTotal (ToNumber h (js_or (tax ord) (Num (Fin 0))));
          discount' = ToNumber h (js_or (discount ord) (Num (Fin 0)))
      in num_add (num_add (Math_max (Fin 0) (num_sub subTotal discount')) shipping') taxes)"

section \<open>Example documents\<close>

text \<open>
  A host with two shops. Its conversions between numbers and strings are never called on
  the documents below, which hold numbers where numbers are expected.
\<close>

definition example_host :: host where
  "example_host =
     \<lparr>NumberToString = (\<lambda>r. []),
      StringToNumber = (\<lambda>s. NaN),
      Shops_findOne = (\<lambda>k. if k = ''s1'' then Obj [(''name'', Str ''Zeta'')]
                           else if k = ''s2'' then Obj [(''name'', Str ''Alpha'')]
                           else Undefined)\<rparr>"

definition line_item :: "string \<Rightarrow> rat \<Rightarrow> rat \<Rightarrow> jsval" where
  "line_item sid q p =
     Obj [(''shopId'', Str sid), (''quantity'', Num (Fin q)),
          (''variants'', Obj [(''price'', Num (Fin p))])]"

definition billing_entry :: "string \<Rightarrow> rat \<Rightarrow> rat \<Rightarrow> jsval" where
  "billing_entry sid s t =
     Obj [(''shopId'', Str sid),
          (''invoice'', Obj [(''shipping'', Num (Fin s)), (''taxes'', Num (Fin t))])]"

text \<open>The example of the specification: two shops, no shipping, billing, tax or discount.\<close>

definition two_shop_order :: order where
  "two_shop_order =
     \<lparr>items = Arr [line_item ''A'' 2 5, line_item ''B'' 1 3],
      shipping = Arr [], billing = Arr [], tax = Undefined, discount = Undefined\<rparr>"

text \<open>Shop \<^verbatim>\<open>s1\<close> is named Zeta, shop \<^verbatim>\<open>s2\<close> is named Alpha.\<close>

definition zeta_alpha_order :: order where
  "zeta_alpha_order =
     \<lparr>items = Arr [line_item ''s1'' 1 1, line_item ''s2'' 1 1],
      shipping = Arr [], billing = Arr [], tax = Undefined, discount = Undefined\<rparr>"

text \<open>An item whose \<^verbatim>\<open>variants\<close> has no \<^verbatim>\<open>price\<close>.\<close>

definition priceless_items :: jsval where
  "priceless_items = Arr [Obj [(''quantity'', Num (Fin 2)), (''variants'', Obj [])]]"

text \<open>An item without \<^verbatim>\<open>quantity\<close>, in an order without \<^verbatim>\<open>tax\<close>.\<close>

definition no_quantity_order :: order where
  "no_quantity_order =
     \<lparr>items = Arr [Obj [(''shopId'', Str ''A''), (''variants'', Obj [(''price'', Num (Fin 5))])]],
      shipping = Arr [], billing = Arr [], tax = Undefined, discount = Undefined\<rparr>"

text \<open>An item whose \<^verbatim>\<open>shopId\<close> is the empty string, beside an item of shop A.\<close>

definition empty_shop_order :: order where
  "empty_shop_order =
     \<lparr>items = Arr [line_item [] 1 1, line_item ''A'' 2 5],
      shipping = Arr [], billing = Arr [], tax = Undefined, discount = Undefined\<rparr>"

text \<open>Two billing entries of shop A, one of shop B between them.\<close>

definition rebilled_order :: order where
  "rebilled_order =
     \<lparr>items = Arr [line_item ''A'' 2 5],
      shipping = Arr [],
      billing = Arr [billing_entry ''A'' 1 2, billing_entry ''B'' 3 4, billing_entry ''A'' 5 6],
      tax = Undefined, discount = Undefined\<rparr>"

text \<open>Two billing entries whose \<^verbatim>\<open>shopId\<close> is \<^verbatim>\<open>__proto__\<close>.\<close>

definition proto_billed_order :: order where
  "proto_billed_order =
     \<lparr>items = Arr [line_item ''A'' 2 5],
      shipping = Arr [],
      billing = Arr [billing_entry ''__proto__'' 1 2, billing_entry ''__proto__'' 5 6],
      tax = Undefined, discount = Undefined\<rparr>"

text \<open>An item of a shop whose id is \<^verbatim>\<open>constructor\<close>.\<close>

definition constructor_order :: order where
  "constructor_order =
     \<lparr>items = Arr [line_item ''constructor'' 2 5],
      shipping = Arr [], billing = Arr [], tax = Undefined, discount = Undefined\<rparr>"

text \<open>A subtotal of 0.004 and a shipping rate of 0.004.\<close>

definition half_cent_order :: order where
  "half_cent_order =
     \<lparr>items = Arr [line_item ''A'' 1 (4 / 1000)],
      shipping = Arr [Obj [(''shipmentMethod'',
                            Obj [(''rate'', Num (Fin (4 / 1000))), (''handling'', Num (Fin 0))])]],
      billing = Arr [], tax = Undefined, discount = Undefined\<rparr>"

definition example_props :: props where
  "example_props =
     \<lparr>checked = (\<lambda>u. Bool True), hasChanges = (\<lambda>u. Bool True),
      hasCreateProductPermission = (\<lambda>u. Bool False),
      product = \<lparr>product_id = ''p1'', isDeleted = Bool True\<rparr>\<rparr>"

text \<open>
  The two-shop order with a shipment (rate 4.50, handling 0.50), a tax rate of 10 percent
  and a discount of 3.
\<close>

definition taxed_order :: order where
  "taxed_order =
     \<lparr>items = Arr [line_item ''A'' 2 5, line_item ''B'' 1 3],
      shipping = Arr [Obj [(''shipmentMethod'',
                            Obj [(''rate'', Num (Fin (9 / 2))),
                                 (''handling'', Num (Fin (1 / 2)))])]],
      billing = Arr [], tax = Num (Fin (1 / 10)), discount = Num (Fin 3)\<rparr>"

section \<open>Properties\<close>

subsection \<open>Writing an amount and reading it back\<close>

lemma of_char_digit_char: "d < 10 \<Longrightarrow> (of_char (digit_char d) :: nat) = 48 + d"
  by (simp add: digit_char_def)

lemma is_digit_digit_char: "d < 10 \<Longrightarrow> is_digit (digit_char d)"
  by (simp add: is_digit_def of_char_digit_char)

lemma digit_val_digit_char: "d < 10 \<Longrightarrow> digit_val (digit_char d) = d"
  by (simp add: digit_val_def of_char_digit_char)

lemma is_digit_not_special:
  "is_digit c \<Longrightarrow> \<not> is_space c \<and> \<not> is_sign c \<and> c \<noteq> CHR ''.''"
  by (auto simp: is_digit_def is_space_def is_sign_def)

lemma dec_digits_all_digits: "list_all is_digit (dec_digits n)"
proof (induction n rule: dec_digits.induct)
  case (1 n)
  show ?case
  proof (cases "n < 10")
    case True
    then show ?thesis by (simp add: dec_digits.simps [of n] is_digit_digit_char)
  next
    case False
    with 1 show ?thesis by (simp add: dec_digits.simps [of n] is_digit_digit_char)
  qed
qed

lemma dec_digits_nonempty: "dec_digits n \<noteq> []"
  by (simp add: dec_digits.simps [of n])

lemma nat_of_digits_snoc: "nat_of_digits (ds @ [c]) = 10 * nat_of_digits ds + digit_val c"
  by (simp add: nat_of_digits_def)

lemma nat_of_digits_dec_digits: "nat_of_digits (dec_digits n) = n"
proof (induction n rule: dec_digits.induct)
  case (1 n)
  show ?case
  proof (cases "n < 10")
    case True
    then show ?thesis
      by (simp add: dec_digits.simps [of n] nat_of_digits_def digit_val_digit_char)
  next
    case False
    with 1 show ?thesis
      by (simp add: dec_digits.simps [of n] nat_of_digits_snoc digit_val_digit_char)
  qed
qed

lemma takeWhile_digits:
  "list_all is_digit ds \<Longrightarrow> \<not> is_digit c \<Longrightarrow> takeWhile is_digit (ds @ c # r) = ds"
  by (induction ds) auto

lemma dropWhile_digits:
  "list_all is_digit ds \<Longrightarrow> \<not> is_digit c \<Longrightarrow> dropWhile is_digit (ds @ c # r) = c # r"
  by (induction ds) auto

lemma tens_digit: "m mod 100 div 10 < (10::nat)"
proof -
  have "m mod 100 < 10 * 10" by simp
  then show ?thesis by (rule less_mult_imp_div_less)
qed

lemma units_digit: "m mod 10 < (10::nat)"
  by simp

lemma two_digits: "10 * (m mod 100 div 10) + m mod 10 = (m mod 100 :: nat)"
proof -
  have "m mod 10 = m mod 100 mod 10" by (simp add: mod_mod_cancel)
  then show ?thesis by simp
qed

lemma two_digits_value:
  "nat_of_digits [digit_char (m mod 100 div 10), digit_char (m mod 10)] = m mod 100"
proof -
  have "nat_of_digits [digit_char (m mod 100 div 10), digit_char (m mod 10)]
      = 10 * digit_val (digit_char (m mod 100 div 10)) + digit_val (digit_char (m mod 10))"
    by (simp add: nat_of_digits_def)
  also have "\<dots> = 10 * (m mod 100 div 10) + m mod 10"
    by (simp only: digit_val_digit_char [OF tens_digit] digit_val_digit_char [OF units_digit])
  also have "\<dots> = m mod 100" by (rule two_digits)
  finally show ?thesis .
qed

lemma hundredths_value:
  "(of_nat (m div 100) :: rat) + of_nat (m mod 100) / 100 = of_nat m / 100"
proof -
  have e: "m div 100 * 100 + m mod 100 = m" by (rule div_mult_mod_eq)
  have "(of_nat m :: rat) = of_nat (m div 100 * 100 + m mod 100)" by (simp only: e)
  also have "\<dots> = of_nat (m div 100) * 100 + of_nat (m mod 100)"
    by (simp only: of_nat_add of_nat_mult of_nat_numeral)
  finally have "(of_nat m :: rat) / 100 = (of_nat (m div 100) * 100 + of_nat (m mod 100)) / 100"
    by (rule arg_cong)
  also have "\<dots> = of_nat (m div 100) + of_nat (m mod 100) / 100"
    by (simp add: add_divide_distrib)
  finally show ?thesis by (rule sym)
qed

lemma parseFloat_unsigned:
  assumes ip: "list_all is_digit ip" "ip \<noteq> []" and fp: "list_all is_digit fp"
  shows "parseFloat (ip @ CHR ''.'' # fp)
       = Fin (of_nat (nat_of_digits ip) + of_nat (nat_of_digits fp) / 10 ^ length fp)"
proof -
  let ?s = "ip @ CHR ''.'' # fp"
  obtain c cs where ipc: "ip = c # cs" using ip(2) by (cases ip) auto
  have c: "is_digit c" using ip(1) ipc by simp
  have nd: "\<not> is_digit CHR ''.''" by (simp add: is_digit_def)
  have t: "dropWhile is_space ?s = ?s"
    using c is_digit_not_special [of c] by (simp add: ipc)
  have hd: "hd ?s = c" "?s \<noteq> []" by (simp_all add: ipc)
  have ns: "\<not> is_sign c" "c \<noteq> CHR ''-''"
    using c is_digit_not_special [of c] by (auto simp: is_sign_def)
  have tw: "takeWhile is_digit ?s = ip"
    using takeWhile_digits [OF ip(1) nd, of fp] by simp
  have dw: "dropWhile is_digit ?s = CHR ''.'' # fp"
    using dropWhile_digits [OF ip(1) nd, of fp] by simp
  have tf: "takeWhile is_digit fp = fp" using fp by (induction fp) auto
  have df: "dropWhile is_digit fp = []" using fp by (induction fp) auto
  show ?thesis
    unfolding parseFloat_def Let_def t
    by (simp add: hd ns tw dw tf df ip(2) exponent_part_def scale10_def)
qed

lemma parseFloat_negative:
  assumes ip: "list_all is_digit ip" "ip \<noteq> []" and fp: "list_all is_digit fp"
  shows "parseFloat (CHR ''-'' # ip @ CHR ''.'' # fp)
       = Fin (- (of_nat (nat_of_digits ip) + of_nat (nat_of_digits fp) / 10 ^ length fp))"
proof -
  let ?s = "ip @ CHR ''.'' # fp"
  have nd: "\<not> is_digit CHR ''.''" by (simp add: is_digit_def)
  have sp: "\<not> is_space CHR ''-''" by (simp add: is_space_def)
  have sg: "is_sign CHR ''-''" by (simp add: is_sign_def)
  have tw: "takeWhile is_digit ?s = ip"
    using takeWhile_digits [OF ip(1) nd, of fp] by simp
  have dw: "dropWhile is_digit ?s = CHR ''.'' # fp"
    using dropWhile_digits [OF ip(1) nd, of fp] by simp
  have tf: "takeWhile is_digit fp = fp" using fp by (induction fp) auto
  have df: "dropWhile is_digit fp = []" using fp by (induction fp) auto
  show ?thesis
    unfolding parseFloat_def Let_def
    by (simp add: sp sg tw dw tf df ip(2) exponent_part_def scale10_def)
qed

lemma parseFloat_unsigned2: "parseFloat (unsigned2 m) = Fin (of_nat m / 100)"
proof -
  have "parseFloat (unsigned2 m)
      = Fin (of_nat (nat_of_digits (dec_digits (m div 100)))
             + of_nat (nat_of_digits [digit_char (m mod 100 div 10), digit_char (m mod 10)])
               / 10 ^ 2)"
    unfolding unsigned2_def
    using parseFloat_unsigned [OF dec_digits_all_digits dec_digits_nonempty,
        of "[digit_char (m mod 100 div 10), digit_char (m mod 10)]" "m div 100"]
    by (simp add: is_digit_digit_char tens_digit)
  then show ?thesis
    by (simp only: nat_of_digits_dec_digits two_digits_value) (simp add: hundredths_value)
qed

lemma parseFloat_minus_unsigned2:
  "parseFloat (CHR ''-'' # unsigned2 m) = Fin (- (of_nat m / 100))"
proof -
  have "parseFloat (CHR ''-'' # unsigned2 m)
      = Fin (- (of_nat (nat_of_digits (dec_digits (m div 100)))
             + of_nat (nat_of_digits [digit_char (m mod 100 div 10), digit_char (m mod 10)])
               / 10 ^ 2))"
    unfolding unsigned2_def
    using parseFloat_negative [OF dec_digits_all_digits dec_digits_nonempty,
        of "[digit_char (m mod 100 div 10), digit_char (m mod 10)]" "m div 100"]
    by (simp add: is_digit_digit_char tens_digit)
  then show ?thesis
    by (simp only: nat_of_digits_dec_digits two_digits_value) (simp add: hundredths_value)
qed

lemma parseFloat_fixed2: "parseFloat (fixed2 k) = Fin (of_int k / 100)"
proof (cases "k < 0")
  case True
  then have "fixed2 k = CHR ''-'' # unsigned2 (nat (- k))"
    by (simp add: fixed2_def)
  moreover have "(of_nat (nat (- k)) :: rat) = - of_int k" using True by simp
  ultimately show ?thesis by (simp add: parseFloat_minus_unsigned2)
next
  case False
  then have "fixed2 k = unsigned2 (nat k)"
    by (simp add: fixed2_def)
  moreover have "(of_nat (nat k) :: rat) = of_int k" using False by simp
  ultimately show ?thesis by (simp add: parseFloat_unsigned2)
qed

lemma parseFloat_NaN: "parseFloat ''NaN'' = NaN"
  by (simp add: parseFloat_def is_space_def is_sign_def is_digit_def)

lemma parseFloat_toFixed2_Fin: "parseFloat (toFixed2 (Fin x)) = Fin (round_half_up2 x)"
  by (simp add: parseFloat_fixed2 Math_round_def round_half_up2_def)

lemma parseFloat_toFixed2_NaN: "parseFloat (toFixed2 NaN) = NaN"
  by (simp add: parseFloat_NaN)

lemma has_two_decimals_unsigned2: "has_two_decimals (unsigned2 m)"
proof -
  let ?ip = "dec_digits (m div 100)"
  let ?fp = "[digit_char (m mod 100 div 10), digit_char (m mod 10)]"
  obtain c cs where ipc: "?ip = c # cs" using dec_digits_nonempty [of "m div 100"] by (cases ?ip) auto
  have c: "is_digit c" using dec_digits_all_digits [of "m div 100"] ipc by simp
  then have cm: "c \<noteq> CHR ''-''" by (auto simp: is_digit_def)
  have nd: "\<not> is_digit CHR ''.''" by (simp add: is_digit_def)
  have u: "unsigned2 m = ?ip @ CHR ''.'' # ?fp" by (simp add: unsigned2_def)
  have hd: "hd (unsigned2 m) = c" using ipc by (simp add: u)
  have tw: "takeWhile is_digit (unsigned2 m) = ?ip"
    unfolding u by (rule takeWhile_digits [OF dec_digits_all_digits nd])
  have dw: "dropWhile is_digit (unsigned2 m) = CHR ''.'' # ?fp"
    unfolding u by (rule dropWhile_digits [OF dec_digits_all_digits nd])
  show ?thesis
    unfolding has_two_decimals_def Let_def
    by (simp add: hd cm tw dw dec_digits_nonempty is_digit_digit_char tens_digit)
qed

lemma has_two_decimals_fixed2: "has_two_decimals (fixed2 k)"
proof (cases "k < 0")
  case True
  have "has_two_decimals (CHR ''-'' # s) = has_two_decimals s" if "s \<noteq> []" "hd s \<noteq> CHR ''-''" for s
    using that by (simp add: has_two_decimals_def)
  moreover have "unsigned2 m \<noteq> []" "hd (unsigned2 m) \<noteq> CHR ''-''" for m
  proof -
    obtain c cs where ipc: "dec_digits (m div 100) = c # cs"
      using dec_digits_nonempty [of "m div 100"] by (cases "dec_digits (m div 100)") auto
    have "is_digit c" using dec_digits_all_digits [of "m div 100"] ipc by simp
    then have "c \<noteq> CHR ''-''" by (auto simp: is_digit_def)
    then show "unsigned2 m \<noteq> []" "hd (unsigned2 m) \<noteq> CHR ''-''"
      by (simp_all add: unsigned2_def ipc)
  qed
  ultimately show ?thesis using True
    by (simp add: fixed2_def has_two_decimals_unsigned2)
next
  case False
  then show ?thesis by (simp add: fixed2_def has_two_decimals_unsigned2)
qed

subsection \<open>The catch of getSummary\<close>

lemma reduce_err_throws:
  "x \<in> set xs \<Longrightarrow> (\<And>a. f a x = Inl TypeError) \<Longrightarrow> reduce_err f acc xs = Inl TypeError"
proof (induction xs arbitrary: acc)
  case Nil
  then show ?case by simp
next
  case (Cons y ys)
  show ?case
  proof (cases "f acc y")
    case (Inl e)
    then show ?thesis by (cases e) simp
  next
    case (Inr acc')
    with Cons have "x \<noteq> y" by auto
    with Cons Inr show ?thesis by auto
  qed
qed

lemma getSummary_of_throw:
  "reduce_err (getSummary_step h prop prop2 sid) (Num (Fin 0)) xs = Inl e
   \<Longrightarrow> getSummary h (Arr xs) prop prop2 sid = Num (Fin 0)"
  by (simp add: getSummary_def getSummary_body_def bind_err_def)

lemma getSummary_not_array:
  "(\<forall>xs. its \<noteq> Arr xs) \<Longrightarrow> getSummary h its prop prop2 sid = Num (Fin 0)"
  by (cases its) (simp_all add: getSummary_def getSummary_body_def)

lemma step_throws_on_absent_item:
  "x = Undefined \<or> x = Null \<Longrightarrow> getSummary_step h prop prop2 sid a x = Inl TypeError"
  by (auto simp: getSummary_step_def add_product_def resolve_def bind_err_def
      split: option.splits)

lemma resolve_throws:
  "length p \<noteq> 1 \<Longrightarrow> js_get x (path_key p 0) \<in> {Inr Undefined, Inr Null}
   \<Longrightarrow> resolve x p = Inl TypeError"
  by (auto simp: resolve_def bind_err_def)

lemma add_product_throws:
  assumes "resolve x p2 = Inl TypeError"
  shows "add_product h prop p2 a x = Inl TypeError"
proof (cases "js_get x (path_key prop 0)")
  case (Inl e)
  then show ?thesis by (cases e) (simp add: add_product_def bind_err_def)
next
  case (Inr v)
  with assms show ?thesis by (simp add: add_product_def bind_err_def)
qed

text \<open>
  C2, as amended. \<^verbatim>\<open>getSummary\<close> never raises: whatever the body of its
  \<^verbatim>\<open>try\<close> throws is caught and the result is 0. It returns 0 when \<open>items\<close> is
  not an array; when an item is \<^verbatim>\<open>undefined\<close> or \<^verbatim>\<open>null\<close>; and when the
  first field of a two-level path is \<^verbatim>\<open>undefined\<close> or \<^verbatim>\<open>null\<close> on an item
  (with no shop filter, where every item is read). Nothing is said of an item that only
  lacks the last field of the path: reading it throws nothing.
\<close>

theorem getSummary_soft_fail:
  "(getSummary_body h its prop prop2 sid = Inl e
      \<longrightarrow> getSummary h its prop prop2 sid = Num (Fin 0))
   \<and> ((\<forall>xs. its \<noteq> Arr xs) \<longrightarrow> getSummary h its prop prop2 sid = Num (Fin 0))
   \<and> (x \<in> set xs \<and> (x = Undefined \<or> x = Null)
        \<longrightarrow> getSummary h (Arr xs) prop prop2 sid = Num (Fin 0))
   \<and> (x \<in> set xs \<and> length p2 \<noteq> 1 \<and> \<not> truthy sid
        \<and> js_get x (path_key p2 0) \<in> {Inr Undefined, Inr Null}
        \<longrightarrow> getSummary h (Arr xs) prop (Some p2) sid = Num (Fin 0))
   \<and> (x \<in> set xs \<and> length prop \<noteq> 1
        \<and> js_get x (path_key prop 0) \<in> {Inr Undefined, Inr Null}
        \<longrightarrow> getSummary h (Arr xs) prop None sid = Num (Fin 0))"
proof (intro conjI impI)
  assume "getSummary_body h its prop prop2 sid = Inl e"
  then show "getSummary h its prop prop2 sid = Num (Fin 0)"
    by (simp add: getSummary_def)
next
  assume "\<forall>xs. its \<noteq> Arr xs"
  then show "getSummary h its prop prop2 sid = Num (Fin 0)"
    by (rule getSummary_not_array)
next
  assume a: "x \<in> set xs \<and> (x = Undefined \<or> x = Null)"
  then have "reduce_err (getSummary_step h prop prop2 sid) (Num (Fin 0)) xs = Inl TypeError"
    by (intro reduce_err_throws [of x] step_throws_on_absent_item) auto
  then show "getSummary h (Arr xs) prop prop2 sid = Num (Fin 0)"
    by (rule getSummary_of_throw)
next
  assume a: "x \<in> set xs \<and> length p2 \<noteq> 1 \<and> \<not> truthy sid
    \<and> js_get x (path_key p2 0) \<in> {Inr Undefined, Inr Null}"
  then have r: "resolve x p2 = Inl TypeError"
    by (intro resolve_throws) auto
  have "getSummary_step h prop (Some p2) sid acc x = Inl TypeError" for acc
    using a add_product_throws [OF r] by (simp add: getSummary_step_def)
  with a have "reduce_err (getSummary_step h prop (Some p2) sid) (Num (Fin 0)) xs
      = Inl TypeError"
    by (intro reduce_err_throws [of x]) auto
  then show "getSummary h (Arr xs) prop (Some p2) sid = Num (Fin 0)"
    by (rule getSummary_of_throw)
next
  assume a: "x \<in> set xs \<and> length prop \<noteq> 1
    \<and> js_get x (path_key prop 0) \<in> {Inr Undefined, Inr Null}"
  then have r: "resolve x prop = Inl TypeError"
    by (intro resolve_throws) auto
  have "getSummary_step h prop None sid acc x = Inl TypeError" for acc
    using r by (simp add: getSummary_step_def bind_err_def)
  with a have "reduce_err (getSummary_step h prop None sid) (Num (Fin 0)) xs = Inl TypeError"
    by (intro reduce_err_throws [of x]) auto
  then show "getSummary h (Arr xs) prop None sid = Num (Fin 0)"
    by (rule getSummary_of_throw)
qed

text \<open>
  The theorem at concrete documents: an order without \<open>items\<close>, an array holding
  \<^verbatim>\<open>null\<close>, an item without \<^verbatim>\<open>variants\<close>, a shipping entry without
  \<^verbatim>\<open>shipmentMethod\<close>, an array whose second element is \<^verbatim>\<open>undefined\<close>.
\<close>

theorem getSummary_soft_fail_witness:
  "getSummary_body example_host (Arr [Null]) [''quantity''] None Undefined = Inl TypeError
   \<and> getSummary example_host (Arr [Null]) [''quantity''] None Undefined = Num (Fin 0)
   \<and> getSummary example_host Undefined [''quantity''] None Undefined = Num (Fin 0)
   \<and> getSummary example_host (Arr [Obj [(''quantity'', Num (Fin 2))]]) [''quantity'']
        (Some [''variants'', ''price'']) Undefined = Num (Fin 0)
   \<and> getSummary example_host (Arr [Obj []]) [''shipmentMethod'', ''rate''] None Undefined
        = Num (Fin 0)
   \<and> getSummary example_host (Arr [line_item ''A'' 2 5, Undefined]) [''quantity'']
        (Some [''variants'', ''price'']) (Str ''A'') = Num (Fin 0)"
proof -
  have b: "getSummary_body example_host (Arr [Null]) [''quantity''] None Undefined
      = Inl TypeError"
    by (simp add: getSummary_body_def getSummary_step_def resolve_def path_key_def bind_err_def)
  have g1: "js_get (Obj [(''quantity'', Num (Fin 2))]) (path_key [''variants'', ''price''] 0)
      \<in> {Inr Undefined, Inr Null}"
    by (simp add: path_key_def)
  have g2: "js_get (Obj []) (path_key [''shipmentMethod'', ''rate''] 0)
      \<in> {Inr Undefined, Inr Null}"
    by (simp add: path_key_def)
  from getSummary_soft_fail [of example_host "Arr [Null]" "[''quantity'']" None Undefined
      TypeError] b
  have 1: "getSummary example_host (Arr [Null]) [''quantity''] None Undefined = Num (Fin 0)"
    by simp
  from getSummary_soft_fail [of example_host Undefined "[''quantity'']" None Undefined]
  have 2: "getSummary example_host Undefined [''quantity''] None Undefined = Num (Fin 0)"
    by simp
  from getSummary_soft_fail [of example_host _ "[''quantity'']" _ Undefined _
      "Obj [(''quantity'', Num (Fin 2))]" "[Obj [(''quantity'', Num (Fin 2))]]"
      "[''variants'', ''price'']"] g1
  have 3: "getSummary example_host (Arr [Obj [(''quantity'', Num (Fin 2))]]) [''quantity'']
        (Some [''variants'', ''price'']) Undefined = Num (Fin 0)"
    by (simp add: path_key_def)
  from getSummary_soft_fail [of example_host _ "[''shipmentMethod'', ''rate'']" _ Undefined _
      "Obj []" "[Obj []]"] g2
  have 4: "getSummary example_host (Arr [Obj []]) [''shipmentMethod'', ''rate''] None Undefined
        = Num (Fin 0)"
    by (simp add: path_key_def)
  from getSummary_soft_fail [of example_host _ "[''quantity'']"
      "Some [''variants'', ''price'']" "Str ''A''" _ Undefined "[line_item ''A'' 2 5, Undefined]"]
  have 5: "getSummary example_host (Arr [line_item ''A'' 2 5, Undefined]) [''quantity'']
        (Some [''variants'', ''price'']) (Str ''A'') = Num (Fin 0)"
    by simp
  from b 1 2 3 4 5 show ?thesis by blast
qed

text \<open>
  C2 as stated fails: an item whose nested field \<^verbatim>\<open>variants.price\<close> is absent
  throws nothing, and the sum is NaN, not 0.
\<close>

theorem getSummary_absent_leaf_counterexample:
  "resolve (Obj [(''quantity'', Num (Fin 2)), (''variants'', Obj [])]) [''variants'', ''price'']
     = Inr Undefined
   \<and> getSummary example_host priceless_items [''quantity''] (Some [''variants'', ''price''])
        Undefined = Num NaN
   \<and> getSummary example_host priceless_items [''quantity''] (Some [''variants'', ''price''])
        Undefined \<noteq> Num (Fin 0)"
  by (simp add: priceless_items_def getSummary_def getSummary_body_def getSummary_step_def
      add_product_def resolve_def path_key_def bind_err_def js_add_def js_mul_def)

subsection \<open>GridItemControls\<close>

text \<open>
  C8. When \<^verbatim>\<open>hasCreateProductPermission()\<close> returns false, \<^verbatim>\<open>render\<close>
  returns \<^verbatim>\<open>null\<close>, whatever the product and whatever \<^verbatim>\<open>checked\<close> and
  \<^verbatim>\<open>hasChanges\<close> return.
\<close>

theorem render_without_permission:
  "hasCreateProductPermission p () = Bool False \<Longrightarrow> render p = NullNode"
  by (simp add: render_def)

theorem render_without_permission_witness:
  "hasCreateProductPermission example_props () = Bool False
   \<and> truthy (checked example_props ()) \<and> truthy (hasChanges example_props ())
   \<and> render example_props = NullNode"
  using render_without_permission [of example_props]
  by (simp add: example_props_def)

subsection \<open>The monetary accessors\<close>

lemma formats_toFixed2: "formats (toFixed2 n) n"
proof (cases n)
  case (Fin x)
  have "has_two_decimals (toFixed2 (Fin x))" by (simp add: has_two_decimals_fixed2)
  then show ?thesis using Fin by (simp only: formats_def num.case parseFloat_toFixed2_Fin)
next
  case NaN
  then show ?thesis by (simp add: formats_def)
qed






lemma toFixed2_zero: "toFixed2 (Fin 0) = ''0.00''"
  by code_simp




text \<open>
  C10. \<^verbatim>\<open>orderTotal\<close> is the two-decimal text of
  \<open>max(0, r(subTotal) - r(discount)) + r(shipping) + r(taxes)\<close>, where each \<open>r\<close> is
  the text returned by the accessor, already rounded, read back as a number. It is not
  the rounding of the total of the unrounded sums: with a subtotal of 0.004 and a
  shipping rate of 0.004, \<^verbatim>\<open>orderTotal\<close> is \<^verbatim>\<open>0.00\<close> and the unrounded total
  0.008 rounds to \<^verbatim>\<open>0.01\<close>.
\<close>

theorem orderTotal_of_rounded:
  "orderTotal h ord
     = toFixed2 (num_add (num_add (Math_max (Fin 0)
                                     (num_sub (parseFloat (orderSubTotal h ord))
                                              (parseFloat (orderDiscounts h ord))))
                                  (parseFloat (orderShipping h ord)))
                         (parseFloat (orderTaxes h ord)))
   \<and> formats (orderSubTotal h ord)
        (ToNumber h (getSummary h (items ord) [''quantity''] (Some [''variants'', ''price''])
                       Undefined))
   \<and> orderTotal example_host half_cent_order = ''0.00''
   \<and> unrounded_total example_host half_cent_order = Fin (8 / 1000)
   \<and> toFixed2 (unrounded_total example_host half_cent_order) = ''0.01''"
proof (intro conjI)
  show "orderTotal h ord
     = toFixed2 (num_add (num_add (Math_max (Fin 0)
                                     (num_sub (parseFloat (orderSubTotal h ord))
                                              (parseFloat (orderDiscounts h ord))))
                                  (parseFloat (orderShipping h ord)))
                         (parseFloat (orderTaxes h ord)))"
    by (simp add: orderTotal_def Let_def accounting_toFixed_def del: toFixed2.simps)
  show "formats (orderSubTotal h ord)
        (ToNumber h (getSummary h (items ord) [''quantity''] (Some [''variants'', ''price''])
                       Undefined))"
    by (simp only: orderSubTotal_def Let_def accounting_toFixed_def formats_toFixed2)
  show "orderTotal example_host half_cent_order = ''0.00''" by code_simp
  show "unrounded_total example_host half_cent_order = Fin (8 / 1000)" by code_simp
  show "toFixed2 (unrounded_total example_host half_cent_order) = ''0.01''" by code_simp
qed

theorem orderTotal_of_rounded_witness:
  "orderTotal example_host taxed_order = ''16.30''
   \<and> parseFloat (orderSubTotal example_host taxed_order) = Fin 13
   \<and> orderTotal example_host half_cent_order \<noteq> toFixed2 (unrounded_total example_host half_cent_order)"
proof -
  have 1: "parseFloat (orderSubTotal example_host taxed_order) = Fin 13" by code_simp
  have 2: "parseFloat (orderDiscounts example_host taxed_order) = Fin 3" by code_simp
  have 3: "parseFloat (orderShipping example_host taxed_order) = Fin 5" by code_simp
  have 4: "parseFloat (orderTaxes example_host taxed_order) = Fin (13 / 10)" by code_simp
  have 5: "toFixed2 (Fin (163 / 10)) = ''16.30''" by code_simp
  have 6: "num_add (num_add (Math_max (Fin 0) (num_sub (Fin 13) (Fin 3))) (Fin 5)) (Fin (13 / 10))
      = Fin (163 / 10)"
    by simp
  note t = orderTotal_of_rounded [of example_host taxed_order]
  from t have "orderTotal example_host taxed_order
      = toFixed2 (num_add (num_add (Math_max (Fin 0)
                   (num_sub (parseFloat (orderSubTotal example_host taxed_order))
                            (parseFloat (orderDiscounts example_host taxed_order))))
                   (parseFloat (orderShipping example_host taxed_order)))
                   (parseFloat (orderTaxes example_host taxed_order)))"
    by (rule conjunct1)
  then have a: "orderTotal example_host taxed_order = ''16.30''"
    by (simp only: 1 2 3 4 6 5)
  from t have "orderTotal example_host half_cent_order = ''0.00''"
    and "toFixed2 (unrounded_total example_host half_cent_order) = ''0.01''"
    by blast+
  then have b: "orderTotal example_host half_cent_order
      \<noteq> toFixed2 (unrounded_total example_host half_cent_order)"
    by simp
  from a 1 b show ?thesis by blast
qed

text \<open>
  C6, as amended. Each of \<^verbatim>\<open>orderShipping\<close>, \<^verbatim>\<open>orderSubTotal\<close>,
  \<^verbatim>\<open>orderTaxes\<close>, \<^verbatim>\<open>orderDiscounts\<close> and \<^verbatim>\<open>orderTotal\<close> returns the amount
  it computed as a text: when the amount is a number, a text with exactly two decimal
  digits that reads as the amount rounded half-up to hundredths; when the amount is NaN,
  the text \<^verbatim>\<open>NaN\<close>.
\<close>

theorem accessors_two_decimals:
  "formats (orderShipping h ord)
     (ToNumber h
        (js_or (js_add h (getSummary h (shipping ord) [''shipmentMethod'', ''handling''] None
                            Undefined)
                         (getSummary h (shipping ord) [''shipmentMethod'', ''rate''] None
                            Undefined))
               (Num (Fin 0))))
   \<and> formats (orderSubTotal h ord)
        (ToNumber h (getSummary h (items ord) [''quantity''] (Some [''variants'', ''price''])
                       Undefined))
   \<and> formats (orderTaxes h ord)
        (num_mul (parseFloat (orderSubTotal h ord))
                 (ToNumber h (js_or (tax ord) (Num (Fin 0)))))
   \<and> formats (orderDiscounts h ord) (ToNumber h (js_or (discount ord) (Num (Fin 0))))
   \<and> formats (orderTotal h ord)
        (num_add (num_add (Math_max (Fin 0)
                             (num_sub (parseFloat (orderSubTotal h ord))
                                      (parseFloat (orderDiscounts h ord))))
                          (parseFloat (orderShipping h ord)))
                 (parseFloat (orderTaxes h ord)))"
proof (intro conjI)
  show "formats (orderShipping h ord)
     (ToNumber h
        (js_or (js_add h (getSummary h (shipping ord) [''shipmentMethod'', ''handling''] None
                            Undefined)
                         (getSummary h (shipping ord) [''shipmentMethod'', ''rate''] None
                            Undefined))
               (Num (Fin 0))))"
    by (simp only: orderShipping_def Let_def accounting_toFixed_def formats_toFixed2)
  show "formats (orderSubTotal h ord)
        (ToNumber h (getSummary h (items ord) [''quantity''] (Some [''variants'', ''price''])
                       Undefined))"
    by (simp only: orderSubTotal_def Let_def accounting_toFixed_def formats_toFixed2)
  show "formats (orderTaxes h ord)
        (num_mul (parseFloat (orderSubTotal h ord))
                 (ToNumber h (js_or (tax ord) (Num (Fin 0)))))"
    by (simp only: orderTaxes_def Let_def accounting_toFixed_def js_mul_def ToNumber.simps
        formats_toFixed2)
  show "formats (orderDiscounts h ord) (ToNumber h (js_or (discount ord) (Num (Fin 0))))"
    by (simp only: orderDiscounts_def Let_def accounting_toFixed_def formats_toFixed2)
  show "formats (orderTotal h ord)
        (num_add (num_add (Math_max (Fin 0)
                             (num_sub (parseFloat (orderSubTotal h ord))
                                      (parseFloat (orderDiscounts h ord))))
                          (parseFloat (orderShipping h ord)))
                 (parseFloat (orderTaxes h ord)))"
    by (simp only: orderTotal_def Let_def accounting_toFixed_def ToNumber.simps
        formats_toFixed2)
qed

theorem accessors_two_decimals_witness:
  "orderSubTotal example_host taxed_order = ''13.00''
   \<and> has_two_decimals (orderSubTotal example_host taxed_order)
   \<and> parseFloat (orderSubTotal example_host taxed_order) = Fin (round_half_up2 13)
   \<and> orderDiscounts example_host taxed_order = ''3.00''
   \<and> has_two_decimals (orderDiscounts example_host taxed_order)
   \<and> orderSubTotal example_host no_quantity_order = ''NaN''"
proof -
  have 1: "ToNumber example_host
      (getSummary example_host (items taxed_order) [''quantity'']
         (Some [''variants'', ''price'']) Undefined) = Fin 13"
    by code_simp
  have 2: "ToNumber example_host (js_or (discount taxed_order) (Num (Fin 0))) = Fin 3"
    by code_simp
  have 3: "ToNumber example_host
      (getSummary example_host (items no_quantity_order) [''quantity'']
         (Some [''variants'', ''price'']) Undefined) = NaN"
    by code_simp
  have 4: "orderSubTotal example_host taxed_order = ''13.00''" by code_simp
  have 5: "orderDiscounts example_host taxed_order = ''3.00''" by code_simp
  note t = accessors_two_decimals [of example_host taxed_order]
  from t have "formats (orderSubTotal example_host taxed_order) (Fin 13)"
    by (simp only: 1)
  then have a: "has_two_decimals (orderSubTotal example_host taxed_order)
      \<and> parseFloat (orderSubTotal example_host taxed_order) = Fin (round_half_up2 13)"
    by (simp only: formats_def num.case)
  from t have "formats (orderDiscounts example_host taxed_order) (Fin 3)"
    by (simp only: 2)
  then have b: "has_two_decimals (orderDiscounts example_host taxed_order)"
    by (simp only: formats_def num.case)
  from accessors_two_decimals [of example_host no_quantity_order]
  have "formats (orderSubTotal example_host no_quantity_order) NaN"
    by (simp only: 3)
  then have c: "orderSubTotal example_host no_quantity_order = ''NaN''"
    by (simp only: formats_def num.case)
  from 4 5 a b c show ?thesis by blast
qed

text \<open>
  C6 as stated fails: the one item of the order has no \<^verbatim>\<open>quantity\<close>, the subtotal
  is NaN, and \<^verbatim>\<open>orderSubTotal\<close> returns the text \<^verbatim>\<open>NaN\<close>, which has no
  decimal digits.
\<close>

theorem orderSubTotal_NaN_counterexample:
  "orderSubTotal example_host no_quantity_order = ''NaN''
   \<and> \<not> has_two_decimals (orderSubTotal example_host no_quantity_order)"
  by code_simp

subsection \<open>Objects keyed by shop\<close>

lemma obj_lookup_obj_set:
  "obj_lookup (obj_set kvs k v) k' = (if k' = k then v else obj_lookup kvs k')"
  by (induction kvs) (auto simp: obj_lookup_def)

lemma keys_obj_set: "fst ` set (obj_set kvs k v) = insert k (fst ` set kvs)"
proof (induction kvs)
  case Nil
  show ?case by simp
next
  case (Cons e kvs)
  obtain k' v' where e: "e = (k', v')" by (cases e)
  show ?case
  proof (cases "k' = k")
    case True
    then show ?thesis by (simp add: e)
  next
    case False
    then show ?thesis using Cons by (simp add: e insert_commute)
  qed
qed

lemma distinct_obj_set: "distinct (map fst kvs) \<Longrightarrow> distinct (map fst (obj_set kvs k v))"
proof (induction kvs)
  case Nil
  show ?case by simp
next
  case (Cons e kvs)
  obtain k' v' where e: "e = (k', v')" by (cases e)
  show ?case
  proof (cases "k' = k")
    case True
    then show ?thesis using Cons.prems by (simp add: e)
  next
    case False
    then show ?thesis using Cons by (simp add: e keys_obj_set)
  qed
qed

lemma one_entry:
  "distinct (map fst m) \<Longrightarrow> k \<in> fst ` set m \<Longrightarrow> length (filter (\<lambda>e. fst e = k) m) = 1"
proof (induction m)
  case Nil
  then show ?case by simp
next
  case (Cons e m)
  show ?case
  proof (cases "fst e = k")
    case True
    with Cons.prems have "k \<notin> fst ` set m" by auto
    then have "filter (\<lambda>e. fst e = k) m = []" by (auto simp: filter_empty_conv)
    with True show ?thesis by simp
  next
    case False
    with Cons show ?thesis by auto
  qed
qed

lemma own_assign:
  "own (assign b k v) = obj_set (own b) k v \<or> (k = ''__proto__'' \<and> own (assign b k v) = own b)"
  by (auto simp: assign_def split: jsval.splits)

text \<open>
  A loop that stores \<open>val b\<close> under \<open>key b\<close> for each \<open>b\<close> in turn, but for the
  key \<^verbatim>\<open>__proto__\<close> which it may leave out, ends with, under every other key, the
  value of the last \<open>b\<close> with that key.
\<close>

lemma reduce_assign_last:
  assumes step: "\<And>acc b acc'. step acc b = Inr acc'
      \<Longrightarrow> own acc' = obj_set (own acc) (key b) (val b)
          \<or> (key b = ''__proto__'' \<and> own acc' = own acc)"
    and k: "k \<noteq> ''__proto__''"
  shows "reduce_err step acc bs = Inr m \<Longrightarrow> distinct (map fst (own acc))
    \<Longrightarrow> distinct (map fst (own m))
        \<and> (k \<in> fst ` set (own m) \<longleftrightarrow> k \<in> fst ` set (own acc) \<or> k \<in> key ` set bs)
        \<and> obj_lookup (own m) k =
              (if k \<in> key ` set bs then val (last (filter (\<lambda>b. key b = k) bs))
               else obj_lookup (own acc) k)"
proof (induction bs arbitrary: acc)
  case Nil
  then show ?case by simp
next
  case (Cons b bs)
  from Cons.prems(1) obtain acc' where s: "step acc b = Inr acc'"
    and r: "reduce_err step acc' bs = Inr m"
    by (auto split: sum.splits)
  have "distinct (map fst (own acc'))
      \<and> (k \<in> fst ` set (own acc') \<longleftrightarrow> k = key b \<or> k \<in> fst ` set (own acc))
      \<and> obj_lookup (own acc') k = (if k = key b then val b else obj_lookup (own acc) k)"
    using step [OF s]
  proof
    assume e: "own acc' = obj_set (own acc) (key b) (val b)"
    have "distinct (map fst (obj_set (own acc) (key b) (val b)))"
      using Cons.prems(2) by (rule distinct_obj_set)
    then show ?thesis by (simp only: e keys_obj_set obj_lookup_obj_set insert_iff simp_thms)
  next
    assume e: "key b = ''__proto__'' \<and> own acc' = own acc"
    then have "k \<noteq> key b" using k by simp
    then show ?thesis using e Cons.prems(2) by simp
  qed
  then have d: "distinct (map fst (own acc'))"
    and keys': "k \<in> fst ` set (own acc') \<longleftrightarrow> k = key b \<or> k \<in> fst ` set (own acc)"
    and look': "obj_lookup (own acc') k = (if k = key b then val b else obj_lookup (own acc) k)"
    by blast+
  note ih = Cons.IH [OF r d]
  have keys: "k \<in> fst ` set (own m) \<longleftrightarrow> k \<in> fst ` set (own acc) \<or> k \<in> key ` set (b # bs)"
    using ih keys' by auto
  have look: "obj_lookup (own m) k =
      (if k \<in> key ` set (b # bs) then val (last (filter (\<lambda>b. key b = k) (b # bs)))
       else obj_lookup (own acc) k)"
  proof (cases "k \<in> key ` set bs")
    case True
    then have "filter (\<lambda>b. key b = k) bs \<noteq> []" by (auto simp: filter_empty_conv)
    with True ih show ?thesis by simp
  next
    case False
    then have e: "filter (\<lambda>b. key b = k) bs = []" by (auto simp: filter_empty_conv)
    from False ih have "obj_lookup (own m) k = obj_lookup (own acc') k" by simp
    also note look'
    finally show ?thesis using False e by auto
  qed
  from ih keys look show ?case by blast
qed

lemma shippingByShop_step_sets:
  "shippingByShop_step h acc b = Inr acc'
   \<Longrightarrow> own acc' = obj_set (own acc) (billing_key h b) (invoice_field b ''shipping'')
       \<or> (billing_key h b = ''__proto__'' \<and> own acc' = own acc)"
  using own_assign [of acc "billing_key h b" "invoice_field b ''shipping''"]
  by (auto simp: shippingByShop_step_def bind_err_def billing_key_def invoice_field_def
      split: sum.splits)

lemma taxesByShop_step_sets:
  "taxesByShop_step h acc b = Inr acc'
   \<Longrightarrow> own acc' = obj_set (own acc) (billing_key h b)
                     (Str (accounting_toFixed h (invoice_field b ''taxes'')))
       \<or> (billing_key h b = ''__proto__'' \<and> own acc' = own acc)"
  using own_assign [of acc "billing_key h b"
      "Str (accounting_toFixed h (invoice_field b ''taxes''))"]
  by (auto simp: taxesByShop_step_def bind_err_def billing_key_def invoice_field_def
      split: sum.splits)

lemma reduce_err_returns:
  "(\<And>acc b. b \<in> set bs \<Longrightarrow> \<exists>acc'. step acc b = Inr acc') \<Longrightarrow> \<exists>m. reduce_err step acc bs = Inr m"
proof (induction bs arbitrary: acc)
  case Nil
  show ?case by simp
next
  case (Cons b bs)
  from Cons.prems [of b acc] obtain acc' where s: "step acc b = Inr acc'" by auto
  have "\<exists>m. reduce_err step acc' bs = Inr m"
    by (rule Cons.IH) (simp add: Cons.prems)
  with s show ?case by simp
qed

lemma has_invoice_reads:
  assumes "has_invoice b"
  shows "\<exists>sid iv v. js_get b ''shopId'' = Inr sid \<and> js_get b ''invoice'' = Inr iv
           \<and> js_get iv f = Inr v"
proof -
  from assms obtain iv where i: "js_get b ''invoice'' = Inr iv" "iv \<noteq> Undefined" "iv \<noteq> Null"
    by (auto simp: has_invoice_def split: sum.splits)
  from i(1) have "b \<noteq> Undefined" "b \<noteq> Null" by auto
  then have "\<exists>sid. js_get b ''shopId'' = Inr sid" by (cases b) auto
  moreover from i(2,3) have "\<exists>v. js_get iv f = Inr v" by (cases iv) auto
  ultimately show ?thesis using i(1) by blast
qed

lemma shippingByShop_step_returns:
  "has_invoice b \<Longrightarrow> \<exists>acc'. shippingByShop_step h acc b = Inr acc'"
  using has_invoice_reads [of b "''shipping''"]
  by (auto simp: shippingByShop_step_def bind_err_def)

lemma taxesByShop_step_returns:
  "has_invoice b \<Longrightarrow> \<exists>acc'. taxesByShop_step h acc b = Inr acc'"
  using has_invoice_reads [of b "''taxes''"]
  by (auto simp: taxesByShop_step_def bind_err_def)

lemma byShop_return:
  assumes "iterate (billing ord) = Inr bs" "\<forall>b\<in>set bs. has_invoice b"
  shows "(\<exists>m. orderShippingByShop h ord = Inr m) \<and> (\<exists>m. orderTaxesByShop h ord = Inr m)"
proof -
  have "\<exists>m. reduce_err (shippingByShop_step h) empty_object bs = Inr m"
    using assms(2) by (intro reduce_err_returns shippingByShop_step_returns) auto
  moreover have "\<exists>m. reduce_err (taxesByShop_step h) empty_object bs = Inr m"
    using assms(2) by (intro reduce_err_returns taxesByShop_step_returns) auto
  ultimately show ?thesis
    using assms(1) by (simp add: orderShippingByShop_def orderTaxesByShop_def bind_err_def)
qed

text \<open>
  C9, as amended. \<^verbatim>\<open>orderShippingByShop\<close> and \<^verbatim>\<open>orderTaxesByShop\<close> return when
  every billing entry can be read. When \<^verbatim>\<open>orderShippingByShop\<close> (respectively
  \<^verbatim>\<open>orderTaxesByShop\<close>) returns, the object it returns has exactly one entry for
  the \<^verbatim>\<open>shopId\<close> of every billing entry, unless that \<^verbatim>\<open>shopId\<close> is
  \<^verbatim>\<open>__proto__\<close>, and that entry holds \<^verbatim>\<open>invoice.shipping\<close> (respectively
  \<^verbatim>\<open>invoice.taxes\<close> to two decimals) of the last billing entry with that
  \<^verbatim>\<open>shopId\<close>: the earlier ones are overwritten.
\<close>

theorem byShop_last_entry_wins:
  "(orderShippingByShop h ord = Inr m \<and> iterate (billing ord) = Inr bs
      \<and> b \<in> set bs \<and> billing_key h b = k \<and> k \<noteq> ''__proto__''
    \<longrightarrow> length (filter (\<lambda>e. fst e = k) (own m)) = 1
        \<and> obj_lookup (own m) k
            = invoice_field (last (filter (\<lambda>b. billing_key h b = k) bs)) ''shipping'')
   \<and> (orderTaxesByShop h ord = Inr m' \<and> iterate (billing ord) = Inr bs
      \<and> b \<in> set bs \<and> billing_key h b = k \<and> k \<noteq> ''__proto__''
    \<longrightarrow> length (filter (\<lambda>e. fst e = k) (own m')) = 1
        \<and> obj_lookup (own m') k
            = Str (accounting_toFixed h
                     (invoice_field (last (filter (\<lambda>b. billing_key h b = k) bs)) ''taxes'')))
   \<and> (iterate (billing ord) = Inr bs \<and> (\<forall>b\<in>set bs. has_invoice b)
    \<longrightarrow> (\<exists>m. orderShippingByShop h ord = Inr m) \<and> (\<exists>m. orderTaxesByShop h ord = Inr m))"
proof (intro conjI impI)
  assume "iterate (billing ord) = Inr bs \<and> (\<forall>b\<in>set bs. has_invoice b)"
  then have r: "(\<exists>m. orderShippingByShop h ord = Inr m) \<and> (\<exists>m. orderTaxesByShop h ord = Inr m)"
    by (intro byShop_return) auto
  from r show "\<exists>m. orderShippingByShop h ord = Inr m" ..
  from r show "\<exists>m. orderTaxesByShop h ord = Inr m" ..
next
  assume a: "orderShippingByShop h ord = Inr m \<and> iterate (billing ord) = Inr bs
      \<and> b \<in> set bs \<and> billing_key h b = k \<and> k \<noteq> ''__proto__''"
  then have r: "reduce_err (shippingByShop_step h) empty_object bs = Inr m"
    by (auto simp: orderShippingByShop_def bind_err_def)
  have k: "k \<in> billing_key h ` set bs" and np: "k \<noteq> ''__proto__''" using a by auto
  have d: "distinct (map fst (own empty_object))" by (simp add: empty_object_def)
  note l = reduce_assign_last [where step = "shippingByShop_step h" and key = "billing_key h"
      and val = "\<lambda>b. invoice_field b ''shipping''", OF shippingByShop_step_sets np r d]
  from l k show "length (filter (\<lambda>e. fst e = k) (own m)) = 1"
    by (intro one_entry) auto
  from l k show "obj_lookup (own m) k
      = invoice_field (last (filter (\<lambda>b. billing_key h b = k) bs)) ''shipping''"
    by simp
next
  assume a: "orderTaxesByShop h ord = Inr m' \<and> iterate (billing ord) = Inr bs
      \<and> b \<in> set bs \<and> billing_key h b = k \<and> k \<noteq> ''__proto__''"
  then have r: "reduce_err (taxesByShop_step h) empty_object bs = Inr m'"
    by (auto simp: orderTaxesByShop_def bind_err_def)
  have k: "k \<in> billing_key h ` set bs" and np: "k \<noteq> ''__proto__''" using a by auto
  have d: "distinct (map fst (own empty_object))" by (simp add: empty_object_def)
  note l = reduce_assign_last [where step = "taxesByShop_step h" and key = "billing_key h"
      and val = "\<lambda>b. Str (accounting_toFixed h (invoice_field b ''taxes''))",
      OF taxesByShop_step_sets np r d]
  from l k show "length (filter (\<lambda>e. fst e = k) (own m')) = 1"
    by (intro one_entry) auto
  from l k show "obj_lookup (own m') k
      = Str (accounting_toFixed h
               (invoice_field (last (filter (\<lambda>b. billing_key h b = k) bs)) ''taxes''))"
    by simp
qed

text \<open>
  The theorem on an order billed twice for shop A (shipping 1 then 5, taxes 2 then 6):
  both calls return, and the entry of A is the second one's.
\<close>

theorem byShop_last_entry_wins_witness:
  "orderShippingByShop example_host rebilled_order
     = Inr \<lparr>own = [(''A'', Num (Fin 5)), (''B'', Num (Fin 3))], proto = None\<rparr>
   \<and> orderTaxesByShop example_host rebilled_order
     = Inr \<lparr>own = [(''A'', Str ''6.00''), (''B'', Str ''4.00'')], proto = None\<rparr>
   \<and> length (filter (\<lambda>e. fst e = ''A'') [(''A'', Num (Fin 5)), (''B'', Num (Fin 3))]) = 1
   \<and> obj_lookup [(''A'', Num (Fin 5)), (''B'', Num (Fin 3))] ''A''
     = invoice_field (billing_entry ''A'' 5 6) ''shipping''
   \<and> obj_lookup [(''A'', Str ''6.00''), (''B'', Str ''4.00'')] ''A''
     = Str (accounting_toFixed example_host (invoice_field (billing_entry ''A'' 5 6) ''taxes''))
   \<and> has_invoice (billing_entry ''A'' 1 2) \<and> has_invoice (billing_entry ''B'' 3 4)
   \<and> has_invoice (billing_entry ''A'' 5 6)
   \<and> (\<exists>m. orderShippingByShop example_host rebilled_order = Inr m)"
proof -
  let ?bs = "[billing_entry ''A'' 1 2, billing_entry ''B'' 3 4, billing_entry ''A'' 5 6]"
  let ?s = "\<lparr>own = [(''A'', Num (Fin 5)), (''B'', Num (Fin 3))], proto = None\<rparr>"
  let ?t = "\<lparr>own = [(''A'', Str ''6.00''), (''B'', Str ''4.00'')], proto = None\<rparr>"
  have 1: "orderShippingByShop example_host rebilled_order = Inr ?s"
    by code_simp
  have 2: "orderTaxesByShop example_host rebilled_order = Inr ?t"
    by code_simp
  have 3: "iterate (billing rebilled_order) = Inr ?bs"
    by (simp add: rebilled_order_def iterate_def)
  have 4: "billing_key example_host (billing_entry ''A'' 5 6) = ''A''"
    by (simp add: billing_key_def billing_entry_def)
  have 5: "last (filter (\<lambda>b. billing_key example_host b = ''A'') ?bs) = billing_entry ''A'' 5 6"
    by (simp add: billing_key_def billing_entry_def)
  have 6: "billing_entry ''A'' 5 6 \<in> set ?bs" by simp
  have 8: "''A'' \<noteq> ''__proto__''" by simp
  note t = byShop_last_entry_wins [of example_host rebilled_order ?s ?bs
      "billing_entry ''A'' 5 6" "''A''" ?t]
  from t 1 3 4 6 8
  have "length (filter (\<lambda>e. fst e = ''A'') (own ?s)) = 1
    \<and> obj_lookup (own ?s) ''A''
       = invoice_field (last (filter (\<lambda>b. billing_key example_host b = ''A'') ?bs)) ''shipping''"
    by blast
  then have a: "length (filter (\<lambda>e. fst e = ''A'') [(''A'', Num (Fin 5)), (''B'', Num (Fin 3))]) = 1
    \<and> obj_lookup [(''A'', Num (Fin 5)), (''B'', Num (Fin 3))] ''A''
       = invoice_field (last (filter (\<lambda>b. billing_key example_host b = ''A'') ?bs)) ''shipping''"
    by (simp only: billingObject.simps)
  from t 2 3 4 6 8
  have "obj_lookup (own ?t) ''A''
       = Str (accounting_toFixed example_host
           (invoice_field (last (filter (\<lambda>b. billing_key example_host b = ''A'') ?bs)) ''taxes''))"
    by blast
  then have b: "obj_lookup [(''A'', Str ''6.00''), (''B'', Str ''4.00'')] ''A''
       = Str (accounting_toFixed example_host
           (invoice_field (last (filter (\<lambda>b. billing_key example_host b = ''A'') ?bs)) ''taxes''))"
    by (simp only: billingObject.simps)
  have 7: "has_invoice (billing_entry s x y)" for s x y
    by (simp add: has_invoice_def billing_entry_def)
  from t 3 7 have c: "\<exists>m. orderShippingByShop example_host rebilled_order = Inr m"
    by simp
  from 1 2 a b c 7 show ?thesis by (simp only: 5)
qed

text \<open>
  C9 as stated fails: the two billing entries of the order have the \<^verbatim>\<open>shopId\<close>
  \<^verbatim>\<open>__proto__\<close>, both can be read, and the objects that
  \<^verbatim>\<open>orderShippingByShop\<close> and \<^verbatim>\<open>orderTaxesByShop\<close> return have no entry at
  all: the assignment went to the accessor of \<^verbatim>\<open>Object.prototype\<close>, which drops a
  number and a text.
\<close>

theorem byShop_proto_counterexample:
  "billing proto_billed_order
     = Arr [billing_entry ''__proto__'' 1 2, billing_entry ''__proto__'' 5 6]
   \<and> billing_key example_host (billing_entry ''__proto__'' 5 6) = ''__proto__''
   \<and> has_invoice (billing_entry ''__proto__'' 1 2)
   \<and> has_invoice (billing_entry ''__proto__'' 5 6)
   \<and> orderShippingByShop example_host proto_billed_order = Inr \<lparr>own = [], proto = None\<rparr>
   \<and> orderTaxesByShop example_host proto_billed_order = Inr \<lparr>own = [], proto = None\<rparr>"
  by code_simp

subsection \<open>Subtotals by shop\<close>

lemma line_fields:
  assumes "line x = Some (sid, q, p)"
  shows "js_get x ''shopId'' = Inr (Str sid)"
    and "js_get x ''quantity'' = Inr (Num (Fin q))"
    and "bind_err (js_get x ''variants'') (\<lambda>v. js_get v ''price'') = Inr (Num (Fin p))"
  using assms
  by (auto simp: line_def split: sum.splits jsval.splits num.splits)

lemma getSummary_step_line:
  assumes l: "line x = Some (sid, q, p)" and s: "s \<noteq> []"
  shows "getSummary_step h [''quantity''] (Some [''variants'', ''price'']) (Str s) (Num (Fin a)) x
       = Inr (Num (Fin (a + (if sid = s then q * p else 0))))"
proof -
  have r: "resolve x [''variants'', ''price''] = Inr (Num (Fin p))"
    using line_fields(3) [OF l] by (simp add: resolve_def path_key_def)
  have "add_product h [''quantity''] [''variants'', ''price''] (Num (Fin a)) x
      = Inr (Num (Fin (a + q * p)))"
    by (simp add: add_product_def path_key_def line_fields(2) [OF l] r bind_err_def
        js_add_def js_mul_def)
  then show ?thesis
    using s by (auto simp: getSummary_step_def line_fields(1) [OF l] bind_err_def strict_eq_def)
qed

lemma shop_subtotal_Cons:
  "shop_subtotal (x # xs) s
     = (if line_shop x = s then line_amount x else 0) + shop_subtotal xs s"
  by (simp add: shop_subtotal_def)

lemma reduce_getSummary_lines:
  assumes s: "s \<noteq> []"
  shows "\<forall>x\<in>set xs. line x \<noteq> None
    \<Longrightarrow> reduce_err (getSummary_step h [''quantity''] (Some [''variants'', ''price'']) (Str s))
          (Num (Fin a)) xs
        = Inr (Num (Fin (a + shop_subtotal xs s)))"
proof (induction xs arbitrary: a)
  case Nil
  show ?case by (simp add: shop_subtotal_def)
next
  case (Cons x xs)
  then obtain sid q p where l: "line x = Some (sid, q, p)" by auto
  have amt: "(if line_shop x = s then line_amount x else 0) = (if sid = s then q * p else 0)"
    by (simp add: line_shop_def line_amount_def l)
  have "reduce_err (getSummary_step h [''quantity''] (Some [''variants'', ''price'']) (Str s))
          (Num (Fin a)) (x # xs)
      = reduce_err (getSummary_step h [''quantity''] (Some [''variants'', ''price'']) (Str s))
          (Num (Fin (a + (if sid = s then q * p else 0)))) xs"
    by (simp add: getSummary_step_line [OF l s])
  also have "\<dots> = Inr (Num (Fin (a + (if sid = s then q * p else 0) + shop_subtotal xs s)))"
    using Cons.prems by (intro Cons.IH) simp
  finally show ?case by (simp only: shop_subtotal_Cons amt add.assoc)
qed

lemma getSummary_lines:
  assumes "s \<noteq> []" and "\<forall>x\<in>set xs. line x \<noteq> None"
  shows "getSummary h (Arr xs) [''quantity''] (Some [''variants'', ''price'']) (Str s)
       = Num (Fin (shop_subtotal xs s))"
  using reduce_getSummary_lines [OF assms, of h 0]
  by (simp add: getSummary_def getSummary_body_def bind_err_def)

lemma toFixed2_nonempty: "toFixed2 n \<noteq> []"
  by (cases n) (simp_all add: fixed2_def unsigned2_def)

text \<open>
  What \<^verbatim>\<open>orderSubTotalByShop\<close> has built after some of the items \<open>xs\<close>: one
  entry per shop met, holding the subtotal of that shop over all of \<open>xs\<close>.
\<close>

lemma subTotalByShop_invariant:
  assumes wf: "\<forall>x\<in>set xs. line x \<noteq> None \<and> line_shop x \<noteq> [] \<and> \<not> inherited (line_shop x)"
  shows "set ys \<subseteq> set xs \<Longrightarrow> distinct (map fst acc)
    \<Longrightarrow> \<forall>k\<in>fst ` set acc. obj_lookup acc k = Str (toFixed2 (Fin (shop_subtotal xs k)))
    \<Longrightarrow> \<exists>m. reduce_err (subTotalByShop_step h (Arr xs)) acc ys = Inr m
          \<and> distinct (map fst m)
          \<and> fst ` set m = fst ` set acc \<union> line_shop ` set ys
          \<and> (\<forall>k\<in>fst ` set m. obj_lookup m k = Str (toFixed2 (Fin (shop_subtotal xs k))))"
proof (induction ys arbitrary: acc)
  case Nil
  then show ?case by simp
next
  case (Cons y ys)
  let ?k = "line_shop y"
  let ?v = "Str (toFixed2 (Fin (shop_subtotal xs ?k)))"
  from Cons.prems(1) wf have ly: "line y \<noteq> None" and ky: "?k \<noteq> []"
    and ny: "\<not> inherited ?k" by auto
  then obtain q p where l: "line y = Some (?k, q, p)"
    by (auto simp: line_shop_def)
  have sid: "js_get y ''shopId'' = Inr (Str ?k)" by (rule line_fields(1) [OF l])
  have sum: "getSummary h (Arr xs) [''quantity''] (Some [''variants'', ''price'']) (Str ?k)
      = Num (Fin (shop_subtotal xs ?k))"
    using wf ky by (intro getSummary_lines) auto
  have seen: "truthy_property (obj_find acc ?k) \<longleftrightarrow> ?k \<in> fst ` set acc"
  proof
    assume "truthy_property (obj_find acc ?k)"
    then have "map_of acc ?k \<noteq> None"
      using ny by (auto simp: obj_find_def split: option.splits)
    then show "?k \<in> fst ` set acc" by (simp add: map_of_eq_None_iff)
  next
    assume in_acc: "?k \<in> fst ` set acc"
    with Cons.prems(3) have "obj_lookup acc ?k = ?v" by blast
    moreover from in_acc have "map_of acc ?k \<noteq> None" by (simp add: map_of_eq_None_iff)
    ultimately have "obj_find acc ?k = Own ?v"
      by (auto simp: obj_find_def obj_lookup_def split: option.splits)
    then show "truthy_property (obj_find acc ?k)"
      by (simp add: toFixed2_nonempty del: toFixed2.simps)
  qed
  define acc' where "acc' = (if ?k \<in> fst ` set acc then acc else obj_set acc ?k ?v)"
  have step: "subTotalByShop_step h (Arr xs) acc y = Inr acc'"
    by (simp add: subTotalByShop_step_def sid bind_err_def seen sum accounting_toFixed_def
        acc'_def Let_def del: toFixed2.simps)
  have d: "distinct (map fst acc')"
    using Cons.prems(2) by (simp add: acc'_def distinct_obj_set)
  have keys: "fst ` set acc' = insert ?k (fst ` set acc)"
    by (auto simp: acc'_def keys_obj_set)
  have vals: "\<forall>k\<in>fst ` set acc'. obj_lookup acc' k = Str (toFixed2 (Fin (shop_subtotal xs k)))"
  proof
    fix k assume k: "k \<in> fst ` set acc'"
    show "obj_lookup acc' k = Str (toFixed2 (Fin (shop_subtotal xs k)))"
    proof (cases "?k \<in> fst ` set acc")
      case True
      then have "acc' = acc" by (simp add: acc'_def)
      with k Cons.prems(3) show ?thesis by blast
    next
      case False
      then have e: "acc' = obj_set acc ?k ?v" by (simp add: acc'_def)
      show ?thesis
      proof (cases "k = ?k")
        case True
        then show ?thesis by (simp add: e obj_lookup_obj_set del: toFixed2.simps)
      next
        case ne: False
        with k keys have "k \<in> fst ` set acc" by blast
        with Cons.prems(3) have "obj_lookup acc k = Str (toFixed2 (Fin (shop_subtotal xs k)))"
          by blast
        with ne show ?thesis by (simp only: e obj_lookup_obj_set if_False)
      qed
    qed
  qed
  from Cons.prems(1) have sub: "set ys \<subseteq> set xs" by simp
  from Cons.IH [OF sub d vals] obtain m where
    m: "reduce_err (subTotalByShop_step h (Arr xs)) acc' ys = Inr m"
      "distinct (map fst m)"
      "fst ` set m = fst ` set acc' \<union> line_shop ` set ys"
      "\<forall>k\<in>fst ` set m. obj_lookup m k = Str (toFixed2 (Fin (shop_subtotal xs k)))"
    by blast
  have "reduce_err (subTotalByShop_step h (Arr xs)) acc (y # ys) = Inr m"
    by (simp add: step m(1))
  moreover have "fst ` set m = fst ` set acc \<union> line_shop ` set (y # ys)"
    using m(3) keys by auto
  ultimately show ?case using m(2) m(4) by blast
qed

text \<open>
  C3, as amended. For every order whose items are well-formed line items (a string
  \<^verbatim>\<open>shopId\<close>, a number for \<^verbatim>\<open>quantity\<close> and for \<^verbatim>\<open>variants.price\<close>) with a
  \<^verbatim>\<open>shopId\<close> that is not empty and is not the name of a member of
  \<^verbatim>\<open>Object.prototype\<close> (\<^verbatim>\<open>constructor\<close>, \<^verbatim>\<open>toString\<close>, \<^verbatim>\<open>__proto__\<close>,
  ...), \<^verbatim>\<open>orderSubTotalByShop\<close> returns an object with exactly one entry per distinct
  \<^verbatim>\<open>shopId\<close> of the items, and the entry of a shop is the sum of quantity times price
  over all the items of that shop, to two decimals.
\<close>

theorem orderSubTotalByShop_per_shop:
  "items ord = Arr xs
     \<and> (\<forall>x\<in>set xs. line x \<noteq> None \<and> line_shop x \<noteq> [] \<and> \<not> inherited (line_shop x))
   \<Longrightarrow> \<exists>m. orderSubTotalByShop h ord = Inr m
         \<and> distinct (map fst m)
         \<and> fst ` set m = line_shop ` set xs
         \<and> (\<forall>x\<in>set xs. obj_lookup m (line_shop x)
                          = Str (toFixed2 (Fin (shop_subtotal xs (line_shop x)))))"
proof -
  assume a: "items ord = Arr xs
     \<and> (\<forall>x\<in>set xs. line x \<noteq> None \<and> line_shop x \<noteq> [] \<and> \<not> inherited (line_shop x))"
  then have wf: "\<forall>x\<in>set xs. line x \<noteq> None \<and> line_shop x \<noteq> [] \<and> \<not> inherited (line_shop x)"
    by simp
  have start: "set xs \<subseteq> set xs" "distinct (map fst ([] :: (string \<times> jsval) list))"
    "\<forall>k\<in>fst ` set ([] :: (string \<times> jsval) list).
       obj_lookup [] k = Str (toFixed2 (Fin (shop_subtotal xs k)))"
    by simp_all
  from subTotalByShop_invariant [OF wf start, of h]
  have "\<exists>m. reduce_err (subTotalByShop_step h (Arr xs)) [] xs = Inr m
          \<and> distinct (map fst m)
          \<and> fst ` set m = line_shop ` set xs
          \<and> (\<forall>k\<in>fst ` set m. obj_lookup m k = Str (toFixed2 (Fin (shop_subtotal xs k))))"
    by (simp del: toFixed2.simps)
  then obtain m where
    m: "reduce_err (subTotalByShop_step h (Arr xs)) [] xs = Inr m"
      "distinct (map fst m)"
      "fst ` set m = line_shop ` set xs"
      "\<forall>k\<in>fst ` set m. obj_lookup m k = Str (toFixed2 (Fin (shop_subtotal xs k)))"
    by blast
  note keys = m(3)
  have "orderSubTotalByShop h ord = Inr m"
    using a by (simp add: orderSubTotalByShop_def elements_def bind_err_def m(1))
  moreover have "\<forall>x\<in>set xs. obj_lookup m (line_shop x)
      = Str (toFixed2 (Fin (shop_subtotal xs (line_shop x))))"
    using m(4) keys by blast
  ultimately show ?thesis using m(2) keys by blast
qed

theorem orderSubTotalByShop_per_shop_witness:
  "orderSubTotalByShop example_host two_shop_order
     = Inr [(''A'', Str ''10.00''), (''B'', Str ''3.00'')]
   \<and> line_shop ` set [line_item ''A'' 2 5, line_item ''B'' 1 3] = {''A'', ''B''}
   \<and> \<not> inherited ''A'' \<and> \<not> inherited ''B''
   \<and> shop_subtotal [line_item ''A'' 2 5, line_item ''B'' 1 3] ''A'' = 10
   \<and> shop_subtotal [line_item ''A'' 2 5, line_item ''B'' 1 3] ''B'' = 3"
proof -
  let ?xs = "[line_item ''A'' 2 5, line_item ''B'' 1 3]"
  have la: "line (line_item ''A'' 2 5) = Some (''A'', 2, 5)"
    by (simp add: line_def line_item_def bind_err_def)
  have lb: "line (line_item ''B'' 1 3) = Some (''B'', 1, 3)"
    by (simp add: line_def line_item_def bind_err_def)
  have ni: "\<not> inherited ''A''" "\<not> inherited ''B''"
    by (simp_all add: inherited_def Object_prototype_def)
  have h: "items two_shop_order = Arr ?xs
      \<and> (\<forall>x\<in>set ?xs. line x \<noteq> None \<and> line_shop x \<noteq> [] \<and> \<not> inherited (line_shop x))"
    by (simp add: two_shop_order_def la lb line_shop_def ni)
  have e: "orderSubTotalByShop example_host two_shop_order
      = Inr [(''A'', Str ''10.00''), (''B'', Str ''3.00'')]"
    by code_simp
  from orderSubTotalByShop_per_shop [OF h, of example_host]
  have "fst ` set [(''A'', Str ''10.00''), (''B'', Str ''3.00'')] = line_shop ` set ?xs"
    by (simp only: e) blast
  then have k: "line_shop ` set ?xs = {''A'', ''B''}" by simp
  have sa: "shop_subtotal ?xs ''A'' = 10"
    by (simp add: shop_subtotal_def line_shop_def line_amount_def la lb)
  have sb: "shop_subtotal ?xs ''B'' = 3"
    by (simp add: shop_subtotal_def line_shop_def line_amount_def la lb)
  from e k ni sa sb show ?thesis by blast
qed

text \<open>
  C3 as stated fails: an item whose \<^verbatim>\<open>shopId\<close> is the empty string makes
  \<^verbatim>\<open>getSummary\<close> sum the items of every shop (an empty \<^verbatim>\<open>shopId\<close> argument
  reads as no argument), so the entry of that shop is 11.00 where its items make 1.00.
  The entry of a shop with an item that has no \<^verbatim>\<open>quantity\<close> is the text
  \<^verbatim>\<open>NaN\<close>, not a sum to two decimals. And a shop whose id is \<^verbatim>\<open>constructor\<close>
  gets no entry: the object inherits a member of that name, so the shop counts as
  already met.
\<close>

theorem orderSubTotalByShop_empty_shop_counterexample:
  "orderSubTotalByShop example_host empty_shop_order
     = Inr [([], Str ''11.00''), (''A'', Str ''10.00'')]
   \<and> items empty_shop_order = Arr [line_item [] 1 1, line_item ''A'' 2 5]
   \<and> toFixed2 (Fin (shop_subtotal [line_item [] 1 1, line_item ''A'' 2 5] [])) = ''1.00''
   \<and> orderSubTotalByShop example_host no_quantity_order = Inr [(''A'', Str ''NaN'')]
   \<and> items constructor_order = Arr [line_item ''constructor'' 2 5]
   \<and> orderSubTotalByShop example_host constructor_order = Inr []"
  by code_simp

subsection \<open>getShopSummary\<close>

text \<open>
  C1 does not hold of the code. Shop \<^verbatim>\<open>s1\<close> is named Zeta and shop \<^verbatim>\<open>s2\<close> is
  named Alpha; the items of the order come in the order \<^verbatim>\<open>s1\<close>, \<^verbatim>\<open>s2\<close>, and
  \<^verbatim>\<open>getShopSummary\<close> returns Zeta before Alpha. Each element of the list is an
  object whose one key is the shop id, so the sort key \<^verbatim>\<open>shopObject.name\<close> is
  \<^verbatim>\<open>undefined\<close> for every element and the sort leaves the list as it was.
\<close>

theorem getShopSummary_unsorted:
  "getShopSummary example_host zeta_alpha_order
     = Inr [Obj [(''s1'', Obj [(''name'', Str ''Zeta''), (''subTotal'', Str ''1.00''),
                               (''taxes'', Undefined),
                               (''items'', Arr [line_item ''s1'' 1 1]),
                               (''quantityTotal'', Num (Fin 1)),
                               (''shipping'', Undefined)])],
            Obj [(''s2'', Obj [(''name'', Str ''Alpha''), (''subTotal'', Str ''1.00''),
                               (''taxes'', Undefined),
                               (''items'', Arr [line_item ''s2'' 1 1]),
                               (''quantityTotal'', Num (Fin 1)),
                               (''shipping'', Undefined)])]]
   \<and> js_get (Obj [(''s1'', Obj [(''name'', Str ''Zeta'')])]) ''name'' = Inr Undefined
   \<and> str_less ''Alpha'' ''Zeta''"
  by code_simp

lemma insert_sorted_entries:
  assumes "\<forall>e\<in>set (a # es). fst e = Undefined" "sorted (map (\<lambda>e. fst (snd e)) (a # es))"
  shows "insert_entry h a es = a # es"
proof (cases es)
  case Nil
  then show ?thesis by simp
next
  case (Cons b bs)
  with assms have "fst a = Undefined" "fst b = Undefined" "fst (snd a) \<le> fst (snd b)"
    by auto
  then have "entry_le h a b"
    by (simp add: entry_le_def compareAscending_def strict_eq_def)
  with Cons show ?thesis by simp
qed

lemma foldr_insert_sorted_entries:
  "\<forall>e\<in>set es. fst e = Undefined \<Longrightarrow> sorted (map (\<lambda>e. fst (snd e)) es)
   \<Longrightarrow> foldr (insert_entry h) es [] = es"
proof (induction es)
  case Nil
  show ?case by simp
next
  case (Cons a es)
  then have "foldr (insert_entry h) es [] = es" by simp
  then have "foldr (insert_entry h) (a # es) [] = insert_entry h a es" by simp
  also have "\<dots> = a # es" using Cons.prems by (intro insert_sorted_entries) auto
  finally show ?case .
qed

text \<open>A sort on keys that are all \<^verbatim>\<open>undefined\<close> returns its input.\<close>

lemma sortBy_undefined_keys:
  assumes "length keys = length xs" "\<forall>k\<in>set keys. k = Undefined"
  shows "sortBy h keys xs = xs"
proof -
  let ?es = "zip keys (zip [0 ..< length xs] xs)"
  have l: "length (zip [0 ..< length xs] xs) = length keys" using assms(1) by simp
  have k: "\<forall>e\<in>set ?es. fst e = Undefined"
    using assms(2) by (auto dest: set_zip_leftD)
  have "map (\<lambda>e. fst (snd e)) ?es = map fst (map snd ?es)" by simp
  also have "map snd ?es = zip [0 ..< length xs] xs" using l by simp
  also have "map fst (zip [0 ..< length xs] xs) = [0 ..< length xs]" by simp
  finally have s: "sorted (map (\<lambda>e. fst (snd e)) ?es)" by simp
  have "sortBy h keys xs = map (\<lambda>e. snd (snd e)) ?es"
    by (simp only: sortBy_def foldr_insert_sorted_entries [OF k s])
  also have "\<dots> = map snd (map snd ?es)" by simp
  also have "map snd ?es = zip [0 ..< length xs] xs" using l by simp
  also have "map snd (zip [0 ..< length xs] xs) = xs" by simp
  finally show ?thesis .
qed

lemma map_err_shopObject:
  "map_err (shopObject h t s sh ibs) ks = Inr sos
   \<Longrightarrow> map shop_of sos = ks \<and> (\<forall>so\<in>set sos. \<exists>k v. so = Obj [(k, v)] \<and> k \<in> set ks)"
proof (induction ks arbitrary: sos)
  case Nil
  then show ?case by simp
next
  case (Cons k ks)
  from Cons.prems obtain so sos' where so: "shopObject h t s sh ibs k = Inr so"
    and r: "map_err (shopObject h t s sh ibs) ks = Inr sos'" and e: "sos = so # sos'"
    by (auto simp: bind_err_def split: sum.splits)
  from so have "\<exists>v. so = Obj [(k, v)]"
    by (auto simp: shopObject_def bind_err_def split: sum.splits)
  with Cons.IH [OF r] e show ?case by (auto simp: shop_of_def)
qed

lemma map_err_length: "map_err f xs = Inr ys \<Longrightarrow> length ys = length xs"
  by (induction xs arbitrary: ys) (auto simp: bind_err_def split: sum.splits)

lemma map_err_set: "map_err f xs = Inr ys \<Longrightarrow> y \<in> set ys \<Longrightarrow> \<exists>x\<in>set xs. f x = Inr y"
  by (induction xs arbitrary: ys) (auto simp: bind_err_def split: sum.splits)

lemma set_Object_keys: "set (Object_keys kvs) = fst ` set kvs"
  by (auto simp: Object_keys_def Let_def)

lemma reduce_err_invariant:
  assumes step: "\<And>a x a'. f a x = Inr a' \<Longrightarrow> P a \<Longrightarrow> P a'"
  shows "reduce_err f acc xs = Inr m \<Longrightarrow> P acc \<Longrightarrow> P m"
proof (induction xs arbitrary: acc)
  case Nil
  then show ?case by simp
next
  case (Cons x xs)
  from Cons.prems(1) obtain acc' where s: "f acc x = Inr acc'"
    and r: "reduce_err f acc' xs = Inr m"
    by (auto split: sum.splits)
  from step [OF s Cons.prems(2)] have "P acc'" .
  with r show ?case by (rule Cons.IH)
qed

text \<open>
  No key of the items grouped by shop is the name of a member of
  \<^verbatim>\<open>Object.prototype\<close>: an item of such a shop makes the grouping throw, as
  \<^verbatim>\<open>getShopSummary\<close> then does, while \<^verbatim>\<open>orderSubTotalByShop\<close> skips it.
\<close>

lemma itemsByShop_step_keys:
  assumes s: "itemsByShop_step h acc item = Inr acc'"
    and inv: "\<forall>k\<in>fst ` set acc. \<not> inherited k"
  shows "\<forall>k\<in>fst ` set acc'. \<not> inherited k"
proof -
  from s obtain sid where sid: "js_get item ''shopId'' = Inr sid"
    by (auto simp: itemsByShop_step_def bind_err_def split: sum.splits)
  let ?k = "ToString h sid"
  have new: "?k \<in> fst ` set acc \<or> \<not> inherited ?k" if "obj_find acc ?k \<noteq> Inherited ?k"
  proof (cases "map_of acc ?k")
    case None
    with that show ?thesis by (simp add: obj_find_def split: if_splits)
  next
    case (Some v)
    then have "(?k, v) \<in> set acc" by (rule map_of_SomeD)
    then have "?k \<in> fst ` set acc" by force
    then show ?thesis ..
  qed
  have "\<exists>v. acc' = obj_set acc ?k v \<and> obj_find acc ?k \<noteq> Inherited ?k"
    using s sid
    by (auto simp: itemsByShop_step_def bind_err_def split: if_splits property.splits jsval.splits)
  then obtain v where e: "acc' = obj_set acc ?k v" and ni: "obj_find acc ?k \<noteq> Inherited ?k"
    by blast
  from new [OF ni] inv show ?thesis by (auto simp: e keys_obj_set)
qed

lemma itemsByShop_keys:
  assumes "itemsByShop h ord = Inr ibs" "k \<in> fst ` set ibs"
  shows "\<not> inherited k"
proof -
  from assms(1) obtain xs where r: "reduce_err (itemsByShop_step h) [] xs = Inr ibs"
    by (auto simp: itemsByShop_def bind_err_def split: sum.splits)
  have "\<forall>k\<in>fst ` set ibs. \<not> inherited k"
    by (rule reduce_err_invariant [where P = "\<lambda>acc. \<forall>k\<in>fst ` set acc. \<not> inherited k",
          OF itemsByShop_step_keys r]) simp_all
  with assms(2) show ?thesis by blast
qed

lemma getShopSummary_inherited_shop:
  "orderSubTotalByShop example_host constructor_order = Inr []
   \<and> itemsByShop example_host constructor_order = Inl TypeError
   \<and> getShopSummary example_host constructor_order = Inl TypeError"
  by code_simp

text \<open>
  What \<^verbatim>\<open>getShopSummary\<close> returns is in the order of \<^verbatim>\<open>Object.keys\<close> of the
  items grouped by shop, whatever the names of the shops, as long as no shop id is the
  string \<^verbatim>\<open>name\<close>: the sort does nothing.
\<close>

theorem getShopSummary_key_order:
  "getShopSummary h ord = Inr rs \<and> itemsByShop h ord = Inr ibs \<and> ''name'' \<notin> fst ` set ibs
   \<Longrightarrow> map shop_of rs = Object_keys ibs"
proof -
  assume a: "getShopSummary h ord = Inr rs \<and> itemsByShop h ord = Inr ibs
    \<and> ''name'' \<notin> fst ` set ibs"
  then obtain t s sh sos keys where
    sos: "map_err (shopObject h t s sh ibs) (Object_keys ibs) = Inr sos"
    and keys: "map_err (\<lambda>so. js_get so ''name'') sos = Inr keys"
    and rs: "rs = sortBy h keys sos"
    by (auto simp: getShopSummary_def bind_err_def split: sum.splits)
  note so = map_err_shopObject [OF sos]
  have "k = Undefined" if "k \<in> set keys" for k
  proof -
    from map_err_set [OF keys that] obtain so where "so \<in> set sos" "js_get so ''name'' = Inr k"
      by blast
    moreover from this so obtain k' v where "so = Obj [(k', v)]" "k' \<in> set (Object_keys ibs)"
      by blast
    moreover from this a have "k' \<noteq> ''name''" by (force simp: set_Object_keys)
    ultimately show ?thesis by auto
  qed
  then have "sortBy h keys sos = sos"
    using map_err_length [OF keys] by (intro sortBy_undefined_keys) auto
  with rs so show ?thesis by simp
qed

theorem getShopSummary_key_order_witness:
  "itemsByShop example_host zeta_alpha_order
     = Inr [(''s1'', Arr [line_item ''s1'' 1 1]), (''s2'', Arr [line_item ''s2'' 1 1])]
   \<and> (\<exists>rs. getShopSummary example_host zeta_alpha_order = Inr rs
           \<and> map shop_of rs = [''s1'', ''s2''])"
proof -
  let ?ibs = "[(''s1'', Arr [line_item ''s1'' 1 1]), (''s2'', Arr [line_item ''s2'' 1 1])]"
  have 1: "itemsByShop example_host zeta_alpha_order = Inr ?ibs" by code_simp
  have 2: "\<not> isl (getShopSummary example_host zeta_alpha_order)" by code_simp
  then obtain rs where rs: "getShopSummary example_host zeta_alpha_order = Inr rs"
    by (cases "getShopSummary example_host zeta_alpha_order") auto
  have 3: "''name'' \<notin> fst ` set ?ibs" by simp
  have 4: "Object_keys ?ibs = [''s1'', ''s2'']" by code_simp
  from getShopSummary_key_order [of example_host zeta_alpha_order rs ?ibs] rs 1 3 4
  have "map shop_of rs = [''s1'', ''s2'']" by simp
  with rs have "\<exists>rs. getShopSummary example_host zeta_alpha_order = Inr rs
      \<and> map shop_of rs = [''s1'', ''s2'']"
    by (intro exI [of _ rs] conjI)
  with 1 show ?thesis by (intro conjI)
qed

subsection \<open>Further properties\<close>

lemma reduce_quantities:
  "\<forall>x\<in>set xs. quantity_of x \<noteq> None
   \<Longrightarrow> reduce_err (getSummary_step h [''quantity''] None Undefined) (Num (Fin a)) xs
       = Inr (Num (Fin (a + sum_list (map quantity_or_zero xs))))"
proof (induction xs arbitrary: a)
  case Nil
  show ?case by simp
next
  case (Cons x xs)
  then obtain q where q: "quantity_of x = Some q" by auto
  then have g: "js_get x ''quantity'' = Inr (Num (Fin q))"
    by (auto simp: quantity_of_def split: sum.splits jsval.splits num.splits)
  have "getSummary_step h [''quantity''] None Undefined (Num (Fin a)) x = Inr (Num (Fin (a + q)))"
    by (simp add: getSummary_step_def resolve_def path_key_def g bind_err_def js_add_def)
  moreover have "reduce_err (getSummary_step h [''quantity''] None Undefined) (Num (Fin (a + q))) xs
      = Inr (Num (Fin (a + q + sum_list (map quantity_or_zero xs))))"
    using Cons.prems by (intro Cons.IH) simp
  moreover have "quantity_or_zero x = q" by (simp add: quantity_or_zero_def q)
  ultimately show ?case by (simp add: add.assoc)
qed

text \<open>
  \<^verbatim>\<open>orderCount\<close> is the sum of the quantities of the items, when every item has a
  number for \<^verbatim>\<open>quantity\<close>; it is 0 for an order with no item.
\<close>

theorem orderCount_sum:
  "items ord = Arr xs \<and> (\<forall>x\<in>set xs. quantity_of x \<noteq> None)
   \<Longrightarrow> orderCount h ord = Num (Fin (sum_list (map quantity_or_zero xs)))"
proof -
  assume a: "items ord = Arr xs \<and> (\<forall>x\<in>set xs. quantity_of x \<noteq> None)"
  then have "reduce_err (getSummary_step h [''quantity''] None Undefined) (Num (Fin 0)) xs
      = Inr (Num (Fin (0 + sum_list (map quantity_or_zero xs))))"
    by (intro reduce_quantities) simp
  with a show ?thesis
    by (simp add: orderCount_def getSummary_def getSummary_body_def bind_err_def)
qed

theorem orderCount_sum_witness:
  "orderCount example_host two_shop_order = Num (Fin 3)
   \<and> orderCount example_host (two_shop_order\<lparr>items := Arr []\<rparr>) = Num (Fin 0)"
proof -
  let ?xs = "[line_item ''A'' 2 5, line_item ''B'' 1 3]"
  have q: "quantity_of (line_item s a b) = Some a" for s a b
    by (simp add: quantity_of_def line_item_def)
  have 1: "items two_shop_order = Arr ?xs \<and> (\<forall>x\<in>set ?xs. quantity_of x \<noteq> None)"
    by (simp add: two_shop_order_def q)
  have 2: "items (two_shop_order\<lparr>items := Arr []\<rparr>) = Arr []
      \<and> (\<forall>x\<in>set ([] :: jsval list). quantity_of x \<noteq> None)"
    by simp
  have 3: "sum_list (map quantity_or_zero ?xs) = 3"
    by (simp add: quantity_or_zero_def q)
  from orderCount_sum [OF 1, of example_host] orderCount_sum [OF 2, of example_host] 3
  show ?thesis by simp
qed

text \<open>
  \<^verbatim>\<open>orderShipping\<close> is \<^verbatim>\<open>0.00\<close> when the order has no shipping entries: the
  field is absent, or is an empty array.
\<close>

theorem orderShipping_absent:
  "shipping ord = Undefined \<or> shipping ord = Arr [] \<Longrightarrow> orderShipping h ord = ''0.00''"
proof -
  assume "shipping ord = Undefined \<or> shipping ord = Arr []"
  then have "getSummary h (shipping ord) p None Undefined = Num (Fin 0)" for p
    by (auto simp: getSummary_def getSummary_body_def bind_err_def)
  then have "orderShipping h ord = toFixed2 (Fin 0)"
    by (simp add: orderShipping_def js_add_def js_or_def accounting_toFixed_def
        del: toFixed2.simps)
  then show ?thesis by (simp only: toFixed2_zero)
qed

theorem orderShipping_absent_witness:
  "shipping two_shop_order = Arr [] \<and> orderShipping example_host two_shop_order = ''0.00''"
proof -
  have 1: "shipping two_shop_order = Arr []" by (simp add: two_shop_order_def)
  then have "shipping two_shop_order = Undefined \<or> shipping two_shop_order = Arr []" by simp
  from orderShipping_absent [OF this, of example_host] 1 show ?thesis by simp
qed

text \<open>
  With the permission, \<^verbatim>\<open>render\<close> returns the controls: the label with the
  checkbox, then the archived badge exactly when the product is deleted, then the
  visibility block exactly when \<^verbatim>\<open>hasChanges()\<close> holds.
\<close>

theorem render_with_permission:
  "truthy (hasCreateProductPermission p ())
   \<Longrightarrow> (\<exists>attrs label. render p = Element ''div'' attrs
                          [label, renderArchived p, renderVisibilityButton p])
       \<and> (renderArchived p \<noteq> UndefinedNode \<longleftrightarrow> truthy (isDeleted (product p)))
       \<and> (renderVisibilityButton p \<noteq> UndefinedNode \<longleftrightarrow> truthy (hasChanges p ()))"
  by (simp add: render_def renderArchived_def renderVisibilityButton_def)

theorem render_with_permission_witness:
  "truthy (hasCreateProductPermission
            (example_props\<lparr>hasCreateProductPermission := (\<lambda>u. Bool True),
                           hasChanges := (\<lambda>u. Bool False)\<rparr>) ())
   \<and> renderArchived (example_props\<lparr>hasCreateProductPermission := (\<lambda>u. Bool True),
                            hasChanges := (\<lambda>u. Bool False)\<rparr>) \<noteq> UndefinedNode
   \<and> renderVisibilityButton (example_props\<lparr>hasCreateProductPermission := (\<lambda>u. Bool True),
                            hasChanges := (\<lambda>u. Bool False)\<rparr>) = UndefinedNode"
proof -
  let ?p = "example_props\<lparr>hasCreateProductPermission := (\<lambda>u. Bool True),
                           hasChanges := (\<lambda>u. Bool False)\<rparr>"
  have 1: "truthy (hasCreateProductPermission ?p ())" by simp
  have 2: "truthy (isDeleted (product ?p))" by (simp add: example_props_def)
  have 3: "\<not> truthy (hasChanges ?p ())" by simp
  from render_with_permission [OF 1] 1 2 3 show ?thesis by blast
qed

end
